theory Spec2Isabelle
  imports Complex_Main "HOL-Library.Sublist" "HOL-Library.AList"
begin

section \<open>The prompt chain element (src/chain/chain/__init__.py)\<close>

text \<open>
  A shallow embedding of the chain element: the prompt formatter \<open>format_prompt\<close>, the
  backend dispatcher \<open>call_llm\<close> and the executor \<open>main\<close>. Python strings are
  \<open>string\<close>; Python objects that the executor creates and shares between frames (the
  side-channel dictionaries and the list \<open>step_outputs\<close>) live in an explicit store, so that
  aliasing is visible. A generator is modelled by the list of its emissions, each with the
  store as it is at that \<open>yield\<close>, together with the store and the exception (if any) at
  the end. The calls of the logger only report what happens and are left out. A setting
  or an output that exists is a true value in a condition, as every object without
  \<open>__bool__\<close> or \<open>__len__\<close> is. Reading the value of a model setting raises
  \<open>ValueError\<close> when the value is not one of the \<open>valid_values\<close> the setting is declared
  with; the read stands inside the loop, so the exception ends the run after the frames
  of the earlier steps. The other settings are read as stored.
\<close>

subsection \<open>Python values, the store and exceptions\<close>

type_synonym addr = nat

datatype pyval =
    PNone
  | PBool bool
  | PInt int
  | PStr string
  | PList "pyval list"
  | PDict "(string \<times> pyval) list"
  | PRef addr

text \<open>
  \<open>PList\<close> and \<open>PDict\<close> are lists and dictionaries that the executor only reads (a
  dictionary is an association list in insertion order). \<open>PRef a\<close> is a reference to a
  mutable object of the store.
\<close>

datatype obj = ODict "(string \<times> pyval) list" | OList "pyval list"

type_synonym store = "obj list"

definition lookup :: "store \<Rightarrow> addr \<Rightarrow> obj option" where
  "lookup st a = (if a < length st then Some (st ! a) else None)"

definition alloc :: "store \<Rightarrow> obj \<Rightarrow> addr \<times> store" where
  "alloc st ob = (length st, st @ [ob])"

definition list_append :: "store \<Rightarrow> addr \<Rightarrow> pyval \<Rightarrow> store" where
  \<comment> \<open>\<open>xs.append(v)\<close> on the list object at \<open>a\<close>\<close>
  "list_append st a v =
     (case lookup st a of Some (OList xs) \<Rightarrow> st[a := OList (xs @ [v])] | _ \<Rightarrow> st)"

definition deref :: "store \<Rightarrow> pyval \<Rightarrow> pyval" where
  "deref st v =
     (case v of
        PRef a \<Rightarrow> (case lookup st a of
                     Some (OList xs) \<Rightarrow> PList xs
                   | Some (ODict d) \<Rightarrow> PDict d
                   | None \<Rightarrow> PNone)
      | _ \<Rightarrow> v)"

datatype exn =
    PyException string
  | ValueError string
  | TypeError string
  | IndexError
  | ImportError
  | ProviderError string

text \<open>All of these derive from Python's \<open>Exception\<close>, the class the handlers catch.\<close>

subsection \<open>Strings\<close>

definition digit_char :: "nat \<Rightarrow> char" where
  "digit_char d = ''0123456789'' ! d"

fun str_nat :: "nat \<Rightarrow> string" where
  "str_nat n = (if n < 10 then [digit_char n] else str_nat (n div 10) @ [digit_char (n mod 10)])"

declare str_nat.simps [simp del]

definition is_space :: "char \<Rightarrow> bool" where
  \<comment> \<open>\<open>str.isspace\<close> on the code points below 256\<close>
  "is_space c = ((of_char c :: nat) \<in> {9, 10, 11, 12, 13, 28, 29, 30, 31, 32, 133, 160})"

definition py_strip :: "string \<Rightarrow> string" where
  "py_strip s = rev (dropWhile is_space (rev (dropWhile is_space s)))"

fun replace_scan :: "string \<Rightarrow> string \<Rightarrow> string \<Rightarrow> string" where
  "replace_scan [] old new = []"
| "replace_scan (c # cs) old new =
     (if old \<noteq> [] \<and> prefix old (c # cs)
      then new @ replace_scan (drop (length old) (c # cs)) old new
      else c # replace_scan cs old new)"

definition py_replace :: "string \<Rightarrow> string \<Rightarrow> string \<Rightarrow> string" where
  \<comment> \<open>\<open>s.replace(old, new)\<close>: the occurrences of \<open>old\<close> are found from left to right
      and do not overlap; an empty \<open>old\<close> matches before every character and at the end\<close>
  "py_replace s old new =
     (if old = [] then new @ concat (map (\<lambda>c. c # new) s) else replace_scan s old new)"

subsection \<open>format_prompt\<close>

definition format_prompt :: "string \<Rightarrow> string \<Rightarrow> string option \<Rightarrow> string" where
  "format_prompt template input_text previous_output =
     (let prompt = py_replace template ''{input}'' input_text
      in (case previous_output of
            Some p \<Rightarrow> if p \<noteq> [] then py_replace prompt ''{previous}'' p
                      else py_replace prompt ''{previous}'' input_text
          | None \<Rightarrow> py_replace prompt ''{previous}'' input_text))"

subsection \<open>Settings, inputs and outputs\<close>

text \<open>
  The class \<open>Settings\<close>: one field for each setting the class declares, holding the
  setting's \<open>value\<close>. The value of a \<open>TextSetting\<close> is a string or \<open>None\<close>; a float is
  the rational its decimal literal denotes (no arithmetic is done on temperatures).
\<close>

record Settings =
  num_steps :: int
  step1_prompt :: "string option"
  step1_model :: "string option"
  step1_api_key :: "string option"
  step1_temperature :: rat
  step2_prompt :: "string option"
  step2_model :: "string option"
  step2_api_key :: "string option"
  step2_temperature :: rat
  step3_prompt :: "string option"
  step3_model :: "string option"
  step3_api_key :: "string option"
  step3_temperature :: rat
  step4_prompt :: "string option"
  step4_model :: "string option"
  step5_prompt :: "string option"
  step5_model :: "string option"

definition text_settings :: "Settings \<Rightarrow> (string \<times> string option) list" where
  "text_settings s =
     [(''step1_prompt'', step1_prompt s), (''step1_model'', step1_model s),
      (''step1_api_key'', step1_api_key s),
      (''step2_prompt'', step2_prompt s), (''step2_model'', step2_model s),
      (''step2_api_key'', step2_api_key s),
      (''step3_prompt'', step3_prompt s), (''step3_model'', step3_model s),
      (''step3_api_key'', step3_api_key s),
      (''step4_prompt'', step4_prompt s), (''step4_model'', step4_model s),
      (''step5_prompt'', step5_prompt s), (''step5_model'', step5_model s)]"

definition float_settings :: "Settings \<Rightarrow> (string \<times> rat) list" where
  "float_settings s =
     [(''step1_temperature'', step1_temperature s),
      (''step2_temperature'', step2_temperature s),
      (''step3_temperature'', step3_temperature s)]"

definition getattr_text :: "Settings \<Rightarrow> string \<Rightarrow> string option option" where
  \<comment> \<open>\<open>getattr(ctx.settings, name, None)\<close> for a text setting: the outer \<open>None\<close> is a
      missing attribute, the inner one a setting whose value is \<open>None\<close>\<close>
  "getattr_text s name = map_of (text_settings s) name"

definition getattr_float :: "Settings \<Rightarrow> string \<Rightarrow> rat option" where
  "getattr_float s name = map_of (float_settings s) name"

definition output_names :: "string list" where
  "output_names = [''step1'', ''step2'', ''step3'', ''step4'', ''step5'', ''step6'',
                   ''step7'', ''step8'', ''step9'', ''step10'', ''final'']"

definition getattr_outputs :: "string \<Rightarrow> string option" where
  \<comment> \<open>\<open>getattr(ctx.outputs, name, None)\<close>: an output channel is identified by its name\<close>
  "getattr_outputs name = (if name \<in> set output_names then Some name else None)"

record Frame =
  ndframe :: pyval
  rois :: pyval
  color_space :: pyval
  frame_id :: pyval
  headers :: pyval
  other_data :: addr

definition other_data_of :: "store \<Rightarrow> Frame \<Rightarrow> (string \<times> pyval) list" where
  \<comment> \<open>the dictionary \<open>frame.other_data\<close>; the address of a frame's \<open>other_data\<close> always
      holds a dictionary, and anything else reads as the empty dictionary\<close>
  "other_data_of st fr = (case lookup st (other_data fr) of Some (ODict d) \<Rightarrow> d | _ \<Rightarrow> [])"

text \<open>
  What the element takes from outside the repository: \<open>str\<close> on a value that is not a
  string, and the two provider clients. A provider call gets the step number, the prompt,
  the key and the temperature; it raises (\<open>Inl\<close>, \<open>ImportError\<close> when the package is
  missing) or returns the response: for the first provider the \<open>content\<close> of each choice
  (possibly \<open>None\<close>), for the second the \<open>text\<close> of each content block.
\<close>

record env =
  str_other :: "store \<Rightarrow> pyval \<Rightarrow> string"
  openai_create :: "nat \<Rightarrow> string \<Rightarrow> string option \<Rightarrow> rat \<Rightarrow> exn + string option list"
  anthropic_create :: "nat \<Rightarrow> string \<Rightarrow> string option \<Rightarrow> rat \<Rightarrow> exn + string list"

definition py_str :: "env \<Rightarrow> store \<Rightarrow> pyval \<Rightarrow> string" where
  "py_str e st v = (case v of PStr s \<Rightarrow> s | _ \<Rightarrow> str_other e st v)"

subsection \<open>call_llm\<close>

definition openai_body :: "env \<Rightarrow> string \<Rightarrow> string option \<Rightarrow> rat \<Rightarrow> nat \<Rightarrow> exn + string" where
  \<comment> \<open>the body of the first \<open>try\<close>\<close>
  "openai_body e prompt api_key temperature step_num =
     (case openai_create e step_num prompt api_key temperature of
        Inl ex \<Rightarrow> Inl ex
      | Inr [] \<Rightarrow> Inl IndexError
      | Inr (content # _) \<Rightarrow>
          (case content of None \<Rightarrow> Inr [] | Some t \<Rightarrow> Inr t))"

definition anthropic_body :: "env \<Rightarrow> string \<Rightarrow> string option \<Rightarrow> rat \<Rightarrow> nat \<Rightarrow> exn + string" where
  \<comment> \<open>the body of the second \<open>try\<close>\<close>
  "anthropic_body e prompt api_key temperature step_num =
     (case anthropic_create e step_num prompt api_key temperature of
        Inl ex \<Rightarrow> Inl ex
      | Inr [] \<Rightarrow> Inr []
      | Inr (t # _) \<Rightarrow> Inr t)"

definition call_llm ::
  "env \<Rightarrow> string \<Rightarrow> string option \<Rightarrow> string option \<Rightarrow> rat \<Rightarrow> nat \<Rightarrow> exn + string" where
  "call_llm e prompt model api_key temperature step_num =
     (if model = Some ''local'' then Inr []
      else if model = Some ''openai'' then
        (case openai_body e prompt api_key temperature step_num of
           Inr result \<Rightarrow> Inr result
         | Inl ex \<Rightarrow> if ex = ImportError then Inr [] else Inr [])
      else if model = Some ''anthropic'' then
        (case anthropic_body e prompt api_key temperature step_num of
           Inr result \<Rightarrow> Inr result
         | Inl ex \<Rightarrow> if ex = ImportError then Inr [] else Inr [])
      else Inr [])"

subsection \<open>The executor\<close>

fun content_items_text :: "store \<Rightarrow> pyval list \<Rightarrow> string \<Rightarrow> exn + string" where
  "content_items_text st [] input_text = Inr input_text"
| "content_items_text st (item # items) input_text =
     (case deref st item of
        PDict d \<Rightarrow>
          if map_of d ''type'' = Some (PStr ''text'')
          then (case map_of d ''text'' of
                  None \<Rightarrow> content_items_text st items (input_text @ [] @ '' '')
                | Some (PStr t) \<Rightarrow> content_items_text st items (input_text @ t @ '' '')
                | Some _ \<Rightarrow> Inl (TypeError ''unsupported operand type(s) for +''))
          else content_items_text st items input_text
      | _ \<Rightarrow> content_items_text st items input_text)"

fun api_messages_text :: "store \<Rightarrow> pyval list \<Rightarrow> string \<Rightarrow> exn + string" where
  "api_messages_text st [] input_text = Inr input_text"
| "api_messages_text st (msg # msgs) input_text =
     (case deref st msg of
        PDict d \<Rightarrow>
          if map_of d ''role'' = Some (PStr ''user'')
          then (case deref st (case map_of d ''content'' of None \<Rightarrow> PStr [] | Some c \<Rightarrow> c) of
                  PStr content \<Rightarrow> api_messages_text st msgs (input_text @ content @ '' '')
                | PList items \<Rightarrow>
                    (case content_items_text st items input_text of
                       Inl ex \<Rightarrow> Inl ex
                     | Inr input_text' \<Rightarrow> api_messages_text st msgs input_text')
                | _ \<Rightarrow> api_messages_text st msgs input_text)
          else api_messages_text st msgs input_text
      | _ \<Rightarrow> api_messages_text st msgs input_text)"

definition extract_input_text :: "env \<Rightarrow> store \<Rightarrow> Frame \<Rightarrow> exn + string" where
  "extract_input_text e st fr =
     (case map_of (other_data_of st fr) ''message'' of
        Some m \<Rightarrow> Inr (py_str e st m)
      | None \<Rightarrow>
          (case map_of (other_data_of st fr) ''api'' of
             Some api_messages \<Rightarrow>
               (case deref st api_messages of
                  PList msgs \<Rightarrow> api_messages_text st msgs []
                | _ \<Rightarrow> Inr [])
           | None \<Rightarrow> Inr []))"

definition py_dict_update :: "(string \<times> pyval) list \<Rightarrow> (string \<times> pyval) list \<Rightarrow> (string \<times> pyval) list" where
  \<comment> \<open>\<open>d.update(kvs)\<close>\<close>
  "py_dict_update d kvs = fold (\<lambda>(k, v). AList.update k v) kvs d"

record emission =
  em_channel :: string
  em_frame :: Frame
  em_heap :: store

record loop_state =
  heap :: store
  previous_output :: "string option"
  current_input :: string
  emitted :: "emission list"

definition prompt_template :: "Settings \<Rightarrow> nat \<Rightarrow> string option option" where
  "prompt_template s step_num = getattr_text s (''step'' @ str_nat step_num @ ''_prompt'')"

definition valid_values :: "string list" where
  "valid_values = [''local'', ''openai'', ''anthropic'']"

definition checked_value :: "string option \<Rightarrow> exn + string option" where
  \<comment> \<open>reading \<open>.value\<close> of a setting declared with \<open>valid_values\<close>: the read raises
      \<open>ValueError\<close> when the stored value is not one of them (the exception carries the
      stored value in place of a message)\<close>
  "checked_value v =
     (case v of
        Some m \<Rightarrow> if m \<in> set valid_values then Inr v else Inl (ValueError m)
      | None \<Rightarrow> Inl (ValueError []))"

definition model_value :: "Settings \<Rightarrow> nat \<Rightarrow> exn + string option" where
  "model_value s step_num =
     (case getattr_text s (''step'' @ str_nat step_num @ ''_model'') of
        Some v \<Rightarrow> checked_value v | None \<Rightarrow> Inr (Some ''local''))"

definition api_key :: "Settings \<Rightarrow> nat \<Rightarrow> string option" where
  "api_key s step_num =
     (case getattr_text s (''step'' @ str_nat step_num @ ''_api_key'') of
        Some v \<Rightarrow> v | None \<Rightarrow> Some [])"

definition temperature :: "Settings \<Rightarrow> nat \<Rightarrow> rat" where
  "temperature s step_num =
     (case getattr_float s (''step'' @ str_nat step_num @ ''_temperature'') of
        Some v \<Rightarrow> v | None \<Rightarrow> 7 / 10)"

definition step_output ::
  "env \<Rightarrow> nat \<Rightarrow> string \<Rightarrow> string option \<Rightarrow> string option \<Rightarrow> rat \<Rightarrow> exn + string" where
  "step_output e step_num prompt mv ak tp =
     (if mv = Some ''local''
      then Inr (''[Step '' @ str_nat step_num @ '' output - requires LLM element]'')
      else (case call_llm e prompt mv ak tp step_num of
              Inl ex \<Rightarrow> Inl ex
            | Inr out \<Rightarrow>
                if out = [] then Inr (''[Step '' @ str_nat step_num @ '' - no output]'')
                else Inr out))"

definition model_val :: "string option \<Rightarrow> pyval" where
  "model_val mv = (case mv of None \<Rightarrow> PNone | Some m \<Rightarrow> PStr m)"

definition step_record :: "nat \<Rightarrow> string \<Rightarrow> string \<Rightarrow> string option \<Rightarrow> pyval" where
  "step_record step_num prompt out mv =
     PDict [(''step'', PInt (int step_num)), (''prompt'', PStr prompt),
            (''output'', PStr out), (''model'', model_val mv)]"

definition step_overlay ::
  "nat \<Rightarrow> string \<Rightarrow> string \<Rightarrow> string option \<Rightarrow> addr \<Rightarrow> (string \<times> pyval) list" where
  "step_overlay step_num prompt out mv step_outputs =
     [(''chain_step'', PInt (int step_num)), (''chain_output'', PStr out),
      (''chain_prompt'', PStr prompt), (''chain_model'', model_val mv),
      (''chain_history'', PRef step_outputs)]"

definition emit_step ::
  "Frame \<Rightarrow> addr \<Rightarrow> nat \<Rightarrow> string \<Rightarrow> string \<Rightarrow> string option \<Rightarrow> store \<Rightarrow> emission list
     \<Rightarrow> store \<times> emission list" where
  "emit_step fr step_outputs step_num prompt out mv st ems =
     (case getattr_outputs (''step'' @ str_nat step_num) of
        None \<Rightarrow> (st, ems)
      | Some ch \<Rightarrow>
          (let (a, st') = alloc st (ODict (py_dict_update (other_data_of st fr)
                                     (step_overlay step_num prompt out mv step_outputs)))
           in (st', ems @ [\<lparr>em_channel = ch, em_frame = fr\<lparr>other_data := a\<rparr>,
                            em_heap = st'\<rparr>])))"

datatype step_result = Break | Raise exn | Continue loop_state

definition do_step :: "env \<Rightarrow> Settings \<Rightarrow> Frame \<Rightarrow> addr \<Rightarrow> nat \<Rightarrow> loop_state \<Rightarrow> step_result" where
  \<comment> \<open>one iteration of the loop over \<open>step_num\<close>\<close>
  "do_step e s fr step_outputs step_num ls =
     (case prompt_template s step_num of
        None \<Rightarrow> Break
      | Some None \<Rightarrow> Break
      | Some (Some template) \<Rightarrow>
          if template = [] then Break
          else
            (case model_value s step_num of
               Inl ex \<Rightarrow> Raise ex
             | Inr mv \<Rightarrow>
                 (let ak = api_key s step_num;
                      tp = temperature s step_num;
                      prompt = format_prompt template (current_input ls) (previous_output ls)
                  in (case step_output e step_num prompt mv ak tp of
                        Inl ex \<Rightarrow> Raise ex
                      | Inr out \<Rightarrow>
                          (let st1 = list_append (heap ls) step_outputs
                                       (step_record step_num prompt out mv);
                               (st2, ems) = emit_step fr step_outputs step_num prompt out mv st1
                                              (emitted ls)
                           in Continue \<lparr>heap = st2, previous_output = Some out,
                                        current_input = out, emitted = ems\<rparr>)))))"

fun run_steps ::
  "env \<Rightarrow> Settings \<Rightarrow> Frame \<Rightarrow> addr \<Rightarrow> nat list \<Rightarrow> loop_state \<Rightarrow> loop_state \<times> exn option" where
  "run_steps e s fr step_outputs [] ls = (ls, None)"
| "run_steps e s fr step_outputs (step_num # rest) ls =
     (case do_step e s fr step_outputs step_num ls of
        Break \<Rightarrow> (ls, None)
      | Raise ex \<Rightarrow> (ls, Some ex)
      | Continue ls' \<Rightarrow> run_steps e s fr step_outputs rest ls')"

definition py_range :: "int \<Rightarrow> int \<Rightarrow> nat list" where
  \<comment> \<open>\<open>range(lo, hi)\<close> for \<open>lo \<ge> 0\<close>\<close>
  "py_range lo hi = [nat lo ..< nat hi]"

definition final_overlay ::
  "string option \<Rightarrow> string \<Rightarrow> int \<Rightarrow> addr \<Rightarrow> (string \<times> pyval) list" where
  "final_overlay prev input_text n step_outputs =
     [(''chain_final_output'',
         PStr (case prev of None \<Rightarrow> input_text
                | Some p \<Rightarrow> if p \<noteq> [] then p else input_text)),
      (''chain_steps'', PInt n),
      (''chain_history'', PRef step_outputs),
      (''chain_complete'', PBool True)]"

definition main ::
  "env \<Rightarrow> Settings \<Rightarrow> store \<Rightarrow> Frame option \<Rightarrow> emission list \<times> store \<times> exn option" where
  "main e s st0 in1 =
     (case in1 of
        None \<Rightarrow> ([], st0, Some (PyException ''Unexpected None frame input.''))
      | Some fr \<Rightarrow>
          (case extract_input_text e st0 fr of
             Inl ex \<Rightarrow> ([], st0, Some ex)
           | Inr input_text \<Rightarrow>
               if py_strip input_text = []
               then ([], st0, Some (ValueError ''No input text provided for chain''))
               else
                 (let (step_outputs, st1) = alloc st0 (OList []);
                      (ls, raised) =
                        run_steps e s fr step_outputs (py_range 1 (num_steps s + 1))
                          \<lparr>heap = st1, previous_output = None,
                           current_input = input_text, emitted = []\<rparr>
                  in (case raised of
                        Some ex \<Rightarrow> (emitted ls, heap ls, Some ex)
                      | None \<Rightarrow>
                          (let (a, st2) =
                                 alloc (heap ls)
                                   (ODict (py_dict_update (other_data_of (heap ls) fr)
                                      (final_overlay (previous_output ls) input_text
                                         (num_steps s) step_outputs)))
                           in (emitted ls @ [\<lparr>em_channel = ''final'',
                                               em_frame = fr\<lparr>other_data := a\<rparr>,
                                               em_heap = st2\<rparr>],
                               st2, None))))))"

subsection \<open>Notions used to state and prove the properties\<close>

text \<open>
  \<open>py_join sep us\<close> is \<open>sep.join(us)\<close>. \<open>segmentation tok us\<close> says that \<open>us\<close> are
  the pieces of \<open>py_join tok us\<close> between the occurrences of \<open>tok\<close>, found from left to
  right without overlap: no occurrence starts inside a piece that a token follows, and
  the last piece contains none. \<open>split_scan\<close> computes these pieces.
\<close>

fun py_join :: "string \<Rightarrow> string list \<Rightarrow> string" where
  "py_join sep [] = []"
| "py_join sep [u] = u"
| "py_join sep (u # v # vs) = u @ sep @ py_join sep (v # vs)"

fun segmentation :: "string \<Rightarrow> string list \<Rightarrow> bool" where
  "segmentation tok [] = False"
| "segmentation tok [u] = (\<not> sublist tok u)"
| "segmentation tok (u # v # vs) = (\<not> sublist tok (u @ butlast tok) \<and> segmentation tok (v # vs))"

fun split_scan :: "string \<Rightarrow> string \<Rightarrow> string list" where
  "split_scan [] tok = [[]]"
| "split_scan (c # cs) tok =
     (if tok \<noteq> [] \<and> prefix tok (c # cs)
      then [] # split_scan (drop (length tok) (c # cs)) tok
      else (case split_scan cs tok of [] \<Rightarrow> [[c]] | u # us \<Rightarrow> (c # u) # us))"

text \<open>
  A step is configured when its prompt setting exists and its value is a non-empty
  string; \<open>completed_steps\<close> counts the configured steps at the head of
  \<open>range(1, num_steps + 1)\<close>. The models are readable when, for each of these steps,
  reading the model does not raise: the step declares no model setting, or the value of
  its model setting is one of the valid values.
\<close>

definition configured :: "Settings \<Rightarrow> nat \<Rightarrow> bool" where
  "configured s n = (case prompt_template s n of Some (Some t) \<Rightarrow> t \<noteq> [] | _ \<Rightarrow> False)"

definition model_ok :: "Settings \<Rightarrow> nat \<Rightarrow> bool" where
  "model_ok s n = (case model_value s n of Inr mv \<Rightarrow> True | Inl ex \<Rightarrow> False)"

definition models_readable :: "Settings \<Rightarrow> bool" where
  "models_readable s =
     list_all (model_ok s) (takeWhile (configured s) (py_range 1 (num_steps s + 1)))"

definition completed_steps :: "Settings \<Rightarrow> nat" where
  "completed_steps s = length (takeWhile (configured s) (py_range 1 (num_steps s + 1)))"

text \<open>
  What a run of \<open>main\<close> on a frame shows: the emissions, the store at the end and the
  exception raised, if any; a key of a frame's side-channel dictionary read in a given
  store, the list its \<open>chain_history\<close> refers to in that store, and a key of a history
  record. \<open>overlay_keys\<close> are the keys the executor writes on the frames of a channel.
\<close>

definition emissions :: "env \<Rightarrow> Settings \<Rightarrow> store \<Rightarrow> Frame \<Rightarrow> emission list" where
  "emissions e s st0 fr = fst (main e s st0 (Some fr))"

definition end_store :: "env \<Rightarrow> Settings \<Rightarrow> store \<Rightarrow> Frame \<Rightarrow> store" where
  "end_store e s st0 fr = fst (snd (main e s st0 (Some fr)))"

definition raised :: "env \<Rightarrow> Settings \<Rightarrow> store \<Rightarrow> Frame \<Rightarrow> exn option" where
  "raised e s st0 fr = snd (snd (main e s st0 (Some fr)))"

definition field :: "store \<Rightarrow> Frame \<Rightarrow> string \<Rightarrow> pyval option" where
  "field st fr k = map_of (other_data_of st fr) k"

definition history_of :: "store \<Rightarrow> Frame \<Rightarrow> pyval list" where
  "history_of st fr =
     (case field st fr ''chain_history'' of
        Some v \<Rightarrow> (case deref st v of PList xs \<Rightarrow> xs | _ \<Rightarrow> [])
      | None \<Rightarrow> [])"

definition record_field :: "pyval \<Rightarrow> string \<Rightarrow> pyval option" where
  "record_field r k = (case r of PDict d \<Rightarrow> map_of d k | _ \<Rightarrow> None)"

definition overlay_keys :: "string \<Rightarrow> string list" where
  "overlay_keys ch =
     (if ch = ''final''
      then [''chain_final_output'', ''chain_steps'', ''chain_history'', ''chain_complete'']
      else [''chain_step'', ''chain_output'', ''chain_prompt'', ''chain_model'',
            ''chain_history''])"

text \<open>
  User messages of the \<open>api\<close> list, with a string content or a list of text parts, and
  the text the executor extracts from one.
\<close>

datatype content = Str string | Parts "string list"

fun content_val :: "content \<Rightarrow> pyval" where
  "content_val (Str c) = PStr c"
| "content_val (Parts ts) = PList (map (\<lambda>t. PDict [(''type'', PStr ''text''), (''text'', PStr t)]) ts)"

fun content_text :: "content \<Rightarrow> string" where
  "content_text (Str c) = c @ '' ''"
| "content_text (Parts ts) = concat (map (\<lambda>t. t @ '' '') ts)"

definition user_message :: "content \<Rightarrow> pyval" where
  "user_message c = PDict [(''role'', PStr ''user''), (''content'', content_val c)]"

text \<open>
  The closed form of a run, used in the proofs. \<open>chain_records\<close> lists, for the steps
  the loop completes, the step number, the prompt, the output and the model
  (\<open>the_output\<close> is the output of \<open>step_output\<close>, which never raises), up to the first
  step that is not configured or whose model cannot be read; \<open>chain_raise\<close> is the
  exception of that read, if the loop ends so. With \<open>rs\<close> the
  records written so far, \<open>heap_after\<close> is the store (the initial store, then the list
  \<open>step_outputs\<close>, then one dictionary for each step frame) and \<open>emissions_after\<close> the
  emissions; \<open>final_heap\<close> and \<open>final_emission\<close> add the terminal frame.
\<close>

definition the_output ::
  "env \<Rightarrow> nat \<Rightarrow> string \<Rightarrow> string option \<Rightarrow> string option \<Rightarrow> rat \<Rightarrow> string" where
  "the_output e n prompt mv ak tp =
     (case step_output e n prompt mv ak tp of Inr out \<Rightarrow> out | Inl _ \<Rightarrow> [])"

datatype srec = SRec (sr_step: nat) (sr_prompt: string) (sr_output: string) (sr_model: "string option")

fun chain_records :: "env \<Rightarrow> Settings \<Rightarrow> nat list \<Rightarrow> string \<Rightarrow> string option \<Rightarrow> srec list" where
  "chain_records e s [] cur prev = []"
| "chain_records e s (n # ns) cur prev =
     (case prompt_template s n of
        Some (Some t) \<Rightarrow>
          if t = [] then []
          else (case model_value s n of
                  Inl ex \<Rightarrow> []
                | Inr mv \<Rightarrow>
                    (let prompt = format_prompt t cur prev;
                         out = the_output e n prompt mv (api_key s n) (temperature s n)
                     in SRec n prompt out mv # chain_records e s ns out (Some out)))
      | _ \<Rightarrow> [])"

fun chain_raise :: "Settings \<Rightarrow> nat list \<Rightarrow> exn option" where
  "chain_raise s [] = None"
| "chain_raise s (n # ns) =
     (case prompt_template s n of
        Some (Some t) \<Rightarrow>
          if t = [] then None
          else (case model_value s n of Inl ex \<Rightarrow> Some ex | Inr mv \<Rightarrow> chain_raise s ns)
      | _ \<Rightarrow> None)"

definition rec_val :: "srec \<Rightarrow> pyval" where
  "rec_val r = step_record (sr_step r) (sr_prompt r) (sr_output r) (sr_model r)"

definition step_dict :: "(string \<times> pyval) list \<Rightarrow> addr \<Rightarrow> srec \<Rightarrow> (string \<times> pyval) list" where
  "step_dict d0 h r =
     py_dict_update d0 (step_overlay (sr_step r) (sr_prompt r) (sr_output r) (sr_model r) h)"

definition rec_dict :: "(string \<times> pyval) list \<Rightarrow> addr \<Rightarrow> srec \<Rightarrow> obj" where
  "rec_dict d0 h r =
     ODict (py_dict_update d0 (step_overlay (sr_step r) (sr_prompt r) (sr_output r) (sr_model r) h))"

definition heap_after :: "store \<Rightarrow> (string \<times> pyval) list \<Rightarrow> srec list \<Rightarrow> store" where
  "heap_after st0 d0 rs = st0 @ OList (map rec_val rs) # map (rec_dict d0 (length st0)) rs"

definition step_emission :: "store \<Rightarrow> (string \<times> pyval) list \<Rightarrow> Frame \<Rightarrow> srec list \<Rightarrow> nat \<Rightarrow> emission" where
  "step_emission st0 d0 fr rs i =
     \<lparr>em_channel = ''step'' @ str_nat (sr_step (rs ! i)),
      em_frame = fr\<lparr>other_data := length st0 + 1 + i\<rparr>,
      em_heap = heap_after st0 d0 (take (Suc i) rs)\<rparr>"

definition emissions_after :: "store \<Rightarrow> (string \<times> pyval) list \<Rightarrow> Frame \<Rightarrow> srec list \<Rightarrow> emission list" where
  "emissions_after st0 d0 fr rs = map (step_emission st0 d0 fr rs) [0..<length rs]"

definition last_output :: "srec list \<Rightarrow> string option \<Rightarrow> string option" where
  "last_output rs prev = (if rs = [] then prev else Some (sr_output (last rs)))"

definition last_input :: "srec list \<Rightarrow> string \<Rightarrow> string" where
  "last_input rs cur = (if rs = [] then cur else sr_output (last rs))"

definition final_dict ::
  "(string \<times> pyval) list \<Rightarrow> srec list \<Rightarrow> string \<Rightarrow> int \<Rightarrow> addr \<Rightarrow> (string \<times> pyval) list" where
  "final_dict d0 rs inp n h = py_dict_update d0 (final_overlay (last_output rs None) inp n h)"

definition final_heap ::
  "store \<Rightarrow> (string \<times> pyval) list \<Rightarrow> srec list \<Rightarrow> string \<Rightarrow> int \<Rightarrow> store" where
  "final_heap st0 d0 rs inp n = heap_after st0 d0 rs @ [ODict (final_dict d0 rs inp n (length st0))]"

definition final_emission ::
  "store \<Rightarrow> (string \<times> pyval) list \<Rightarrow> Frame \<Rightarrow> srec list \<Rightarrow> string \<Rightarrow> int \<Rightarrow> emission" where
  "final_emission st0 d0 fr rs inp n =
     \<lparr>em_channel = ''final'', em_frame = fr\<lparr>other_data := length st0 + 1 + length rs\<rparr>,
      em_heap = final_heap st0 d0 rs inp n\<rparr>"

definition records_of :: "env \<Rightarrow> Settings \<Rightarrow> string \<Rightarrow> srec list" where
  "records_of e s inp = chain_records e s (py_range 1 (num_steps s + 1)) inp None"

text \<open>
  Concrete inputs: the default settings with two steps and variants of them (in
  \<open>ex_settings_f\<close> the model of step 2 is not one of the valid values), a frame whose
  side-channel dictionary is the first object of the store, and providers that always
  fail.
\<close>

definition ex_env :: env where
  "ex_env = \<lparr>str_other = (\<lambda>st v. ''<object>''),
             openai_create = (\<lambda>n p k t. Inl ImportError),
             anthropic_create = (\<lambda>n p k t. Inl (ProviderError ''401''))\<rparr>"

definition ex_settings :: Settings where
  "ex_settings =
     \<lparr>num_steps = 2,
      step1_prompt = Some ''Process the following: {input}'', step1_model = Some ''local'',
      step1_api_key = Some [], step1_temperature = 7 / 10,
      step2_prompt = Some ''Continue with: {previous}'', step2_model = Some ''local'',
      step2_api_key = Some [], step2_temperature = 7 / 10,
      step3_prompt = Some ''Continue with: {previous}'', step3_model = Some ''local'',
      step3_api_key = Some [], step3_temperature = 7 / 10,
      step4_prompt = Some ''Continue with: {previous}'', step4_model = Some ''local'',
      step5_prompt = Some ''Continue with: {previous}'', step5_model = Some ''local''\<rparr>"

definition ex_settings_b :: Settings where
  "ex_settings_b = ex_settings\<lparr>num_steps := 3, step2_prompt := Some []\<rparr>"

definition ex_settings_d :: Settings where
  "ex_settings_d = ex_settings\<lparr>num_steps := 3, step2_model := Some ''openai''\<rparr>"

definition ex_settings_e :: Settings where
  "ex_settings_e = ex_settings\<lparr>num_steps := 5, step4_model := Some ''anthropic''\<rparr>"

definition six_settings :: Settings where
  "six_settings = ex_settings\<lparr>num_steps := 6\<rparr>"

definition ex_settings_f :: Settings where
  "ex_settings_f = ex_settings\<lparr>num_steps := 3, step2_model := Some ''gpt''\<rparr>"

definition ex_frame :: Frame where
  "ex_frame = \<lparr>ndframe = PNone, rois = PNone, color_space = PStr ''RGB'', frame_id = PInt 7,
               headers = PDict [], other_data = 0\<rparr>"

definition ex_store :: store where
  "ex_store = [ODict [(''message'', PStr ''Hello''), (''source'', PStr ''cam0'')]]"

definition blank_store :: store where
  "blank_store = [ODict [(''api'', PList [user_message (Parts [''  '', []]), user_message (Str '' '')])]]"

definition chained_store :: store where
  "chained_store =
     [ODict [(''message'', PStr ''Hello''), (''chain_final_output'', PStr ''earlier''),
             (''chain_steps'', PInt 1), (''chain_history'', PList []),
             (''chain_complete'', PBool True)]]"

definition shared_store :: store where
  "shared_store = [ODict [(''message'', PStr ''Hello''), (''tags'', PRef 1)], OList [PStr ''a'']]"

section \<open>Lemmas\<close>

subsection \<open>Decimal strings and the names of the settings\<close>

lemma str_nat_small: "n < 10 \<Longrightarrow> str_nat n = [digit_char n]"
  by (simp add: str_nat.simps)

lemma str_nat_not_Nil: "str_nat n \<noteq> []"
  by (subst str_nat.simps) simp

lemma digit_cases:
  fixes n :: nat
  shows "n < 10 \<Longrightarrow> n \<in> {0, Suc 0, 2, 3, 4, 5, 6, 7, 8, 9}"
  by auto

lemma digit_char_vals:
  "digit_char 0 = CHR ''0''" "digit_char (Suc 0) = CHR ''1''" "digit_char 2 = CHR ''2''"
  "digit_char 3 = CHR ''3''" "digit_char 4 = CHR ''4''" "digit_char 5 = CHR ''5''"
  "digit_char 6 = CHR ''6''" "digit_char 7 = CHR ''7''" "digit_char 8 = CHR ''8''"
  "digit_char 9 = CHR ''9''"
  by (simp_all add: digit_char_def)

lemma digit_char_not_underscore: "n < 10 \<Longrightarrow> digit_char n \<noteq> CHR ''_''"
  by (auto dest!: digit_cases simp: digit_char_vals)

lemma str_nat_digits: "c \<in> set (str_nat n) \<Longrightarrow> c \<noteq> CHR ''_''"
proof (induction n arbitrary: c rule: str_nat.induct)
  case (1 n)
  show ?case
  proof (cases "n < 10")
    case True
    with "1.prems" show ?thesis
      by (auto simp: str_nat_small digit_char_not_underscore)
  next
    case False
    then have eq: "str_nat n = str_nat (n div 10) @ [digit_char (n mod 10)]"
      by (subst str_nat.simps) simp
    have "n mod 10 < 10" by simp
    then have "digit_char (n mod 10) \<noteq> CHR ''_''" by (rule digit_char_not_underscore)
    with "1.prems" "1.IH" [OF False] eq show ?thesis by auto
  qed
qed

lemma str_nat_single: "(str_nat n = [c]) = (n < 10 \<and> digit_char n = c)"
proof (cases "n < 10")
  case True
  then show ?thesis by (auto simp: str_nat_small)
next
  case False
  then have "str_nat n = str_nat (n div 10) @ [digit_char (n mod 10)]"
    by (subst str_nat.simps) simp
  with False str_nat_not_Nil [of "n div 10"] show ?thesis by auto
qed

lemma str_nat_eq_lit:
  "(str_nat n = ''1'') = (n = 1)" "(str_nat n = ''2'') = (n = 2)" "(str_nat n = ''3'') = (n = 3)"
  "(str_nat n = ''4'') = (n = 4)" "(str_nat n = ''5'') = (n = 5)"
  by (auto simp: str_nat_single digit_char_vals dest!: digit_cases)

lemma str_nat_lit:
  "str_nat (Suc 0) = ''1''" "str_nat 2 = ''2''" "str_nat 3 = ''3''" "str_nat 4 = ''4''" "str_nat 5 = ''5''"
  by (simp_all add: str_nat_small digit_char_vals)

lemma str_nat_key:
  "(str_nat n @ CHR ''_'' # r = d # CHR ''_'' # r') = (str_nat n = [d] \<and> r = r')"
proof (cases "str_nat n")
  case Nil
  then show ?thesis using str_nat_not_Nil by simp
next
  case (Cons c cs)
  show ?thesis
  proof (cases cs)
    case Nil
    with Cons show ?thesis by auto
  next
    case (Cons c' cs')
    have "c' \<in> set (str_nat n)" using \<open>str_nat n = c # cs\<close> Cons by simp
    then have "c' \<noteq> CHR ''_''" by (rule str_nat_digits)
    with \<open>str_nat n = c # cs\<close> Cons show ?thesis by auto
  qed
qed

lemma prompt_template_eq:
  "prompt_template s n =
     (if n = 1 then Some (step1_prompt s) else if n = 2 then Some (step2_prompt s)
      else if n = 3 then Some (step3_prompt s) else if n = 4 then Some (step4_prompt s)
      else if n = 5 then Some (step5_prompt s) else None)"
  by (simp add: prompt_template_def getattr_text_def text_settings_def str_nat_key
        str_nat_eq_lit)

lemma model_value_eq:
  "model_value s n =
     (if n = 1 then checked_value (step1_model s) else if n = 2 then checked_value (step2_model s)
      else if n = 3 then checked_value (step3_model s)
      else if n = 4 then checked_value (step4_model s)
      else if n = 5 then checked_value (step5_model s) else Inr (Some ''local''))"
  by (simp add: model_value_def getattr_text_def text_settings_def str_nat_key
        str_nat_eq_lit)

lemma api_key_eq:
  "api_key s n =
     (if n = 1 then step1_api_key s else if n = 2 then step2_api_key s
      else if n = 3 then step3_api_key s else Some [])"
  by (simp add: api_key_def getattr_text_def text_settings_def str_nat_key
        str_nat_eq_lit)

lemma temperature_eq:
  "temperature s n =
     (if n = 1 then step1_temperature s else if n = 2 then step2_temperature s
      else if n = 3 then step3_temperature s else 7 / 10)"
  by (simp add: temperature_def getattr_float_def float_settings_def str_nat_key
        str_nat_eq_lit)

subsection \<open>Replacing the occurrences of a token\<close>

lemma replace_scan_no_occurrence: "\<not> sublist old s \<Longrightarrow> replace_scan s old new = s"
proof (induction s)
  case Nil
  then show ?case by simp
next
  case (Cons c cs)
  then have "\<not> prefix old (c # cs)" and "\<not> sublist old cs"
    by (auto simp: sublist_Cons_right)
  with Cons.IH show ?case by simp
qed

lemma prefix_before_token:
  assumes "prefix old (c # u @ old @ rest)"
  shows "prefix old (c # u @ butlast old)"
proof (cases "old = []")
  case True
  then show ?thesis by simp
next
  case False
  then have split: "old = butlast old @ [last old]" by simp
  have "c # u @ old @ rest = (c # u @ butlast old) @ (last old # rest)"
    by (subst split) simp
  with assms have "prefix old ((c # u @ butlast old) @ (last old # rest))" by simp
  moreover have "length old \<le> length (c # u @ butlast old)" using False by simp
  ultimately show ?thesis
    by (metis prefix_length_prefix prefixI)
qed

lemma replace_scan_first:
  assumes "old \<noteq> []" and "\<not> sublist old (u @ butlast old)"
  shows "replace_scan (u @ old @ rest) old new = u @ new @ replace_scan rest old new"
  using assms(2)
proof (induction u)
  case Nil
  obtain c cs where oc: "old = c # cs" using assms(1) by (cases old) auto
  have "replace_scan ((c # cs) @ rest) (c # cs) new
          = new @ replace_scan (drop (length (c # cs)) ((c # cs) @ rest)) (c # cs) new"
    by simp
  then show ?case using oc by simp
next
  case (Cons c u)
  have np: "\<not> prefix old (c # u @ old @ rest)"
  proof
    assume "prefix old (c # u @ old @ rest)"
    then have "prefix old (c # u @ butlast old)" by (rule prefix_before_token)
    then have "sublist old ((c # u) @ butlast old)" by (simp add: prefix_imp_sublist)
    with Cons.prems show False by simp
  qed
  have "\<not> sublist old (u @ butlast old)"
    using Cons.prems by (simp add: sublist_Cons_right)
  then have "replace_scan (u @ old @ rest) old new = u @ new @ replace_scan rest old new"
    by (rule Cons.IH)
  with np show ?case by simp
qed

lemma replace_scan_segments:
  "old \<noteq> [] \<Longrightarrow> segmentation old us \<Longrightarrow>
     replace_scan (py_join old us) old new = py_join new us"
proof (induction old us rule: segmentation.induct)
  case (1 tok)
  then show ?case by simp
next
  case (2 tok u)
  then show ?case by (simp add: replace_scan_no_occurrence)
next
  case (3 tok u v vs)
  then show ?case by (simp add: replace_scan_first)
qed

lemma py_replace_segments:
  "old \<noteq> [] \<Longrightarrow> segmentation old us \<Longrightarrow>
     py_replace (py_join old us) old new = py_join new us"
  by (simp add: py_replace_def replace_scan_segments)

lemma split_scan_not_Nil: "split_scan s tok \<noteq> []"
  by (induction s tok rule: split_scan.induct) (auto split: list.splits)

lemma split_scan_join: "tok \<noteq> [] \<Longrightarrow> py_join tok (split_scan s tok) = s"
proof (induction s tok rule: split_scan.induct)
  case (1 tok)
  then show ?case by simp
next
  case (2 c cs tok)
  show ?case
  proof (cases "prefix tok (c # cs)")
    case True
    then have r: "tok @ drop (length tok) (c # cs) = c # cs"
      by (metis append_eq_conv_conj prefix_def)
    have step: "split_scan (c # cs) tok = [] # split_scan (drop (length tok) (c # cs)) tok"
      using True 2 by simp
    from True 2 have ih: "py_join tok (split_scan (drop (length tok) (c # cs)) tok)
                        = drop (length tok) (c # cs)" by simp
    obtain w ws where ww: "split_scan (drop (length tok) (c # cs)) tok = w # ws"
      using split_scan_not_Nil by (cases "split_scan (drop (length tok) (c # cs)) tok") auto
    have "py_join tok ([] # w # ws) = tok @ py_join tok (w # ws)" by simp
    with ih ww r step show ?thesis by metis
  next
    case False
    with 2 have ih: "py_join tok (split_scan cs tok) = cs" by simp
    obtain u us where su: "split_scan cs tok = u # us"
      using split_scan_not_Nil by (cases "split_scan cs tok") auto
    with ih have "py_join tok ((c # u) # us) = c # cs" by (cases us) auto
    with False su show ?thesis by simp
  qed
qed

lemma split_scan_segmentation: "tok \<noteq> [] \<Longrightarrow> segmentation tok (split_scan s tok)"
proof (induction s tok rule: split_scan.induct)
  case (1 tok)
  then show ?case by simp
next
  case (2 c cs tok)
  show ?case
  proof (cases "prefix tok (c # cs)")
    case True
    with 2 have "segmentation tok (split_scan (drop (length tok) (c # cs)) tok)" by simp
    moreover obtain w ws where "split_scan (drop (length tok) (c # cs)) tok = w # ws"
      using split_scan_not_Nil by (cases "split_scan (drop (length tok) (c # cs)) tok") auto
    moreover have "\<not> sublist tok (butlast tok)"
      using 2 by (metis sublist_length_le length_butlast diff_less length_greater_0_conv
                    less_one not_less)
    ultimately show ?thesis using True 2 by simp
  next
    case False
    with 2 have ih: "segmentation tok (split_scan cs tok)" by simp
    have j: "py_join tok (split_scan cs tok) = cs" using 2 by (simp add: split_scan_join)
    obtain u us where su: "split_scan cs tok = u # us"
      using split_scan_not_Nil by (cases "split_scan cs tok") auto
    have "segmentation tok ((c # u) # us)"
    proof (cases us)
      case Nil
      with ih su j False show ?thesis by (simp add: sublist_Cons_right)
    next
      case (Cons v vs)
      with j su have cs: "cs = u @ tok @ py_join tok (v # vs)" by simp
      have "\<not> prefix tok (c # u @ butlast tok)"
      proof
        assume "prefix tok (c # u @ butlast tok)"
        then have "prefix tok ((c # u @ butlast tok) @ (last tok # py_join tok (v # vs)))"
          using prefix_prefix by blast
        moreover have "tok = butlast tok @ [last tok]" using 2 by simp
        then have "c # cs = (c # u @ butlast tok) @ (last tok # py_join tok (v # vs))"
          using cs by (metis append.assoc append_Cons append_Nil)
        ultimately show False using False by simp
      qed
      with ih su Cons show ?thesis by (simp add: sublist_Cons_right)
    qed
    with False su show ?thesis by simp
  qed
qed

lemma segmentation_exists:
  "tok \<noteq> [] \<Longrightarrow> \<exists>us. segmentation tok us \<and> py_join tok us = s"
  using split_scan_segmentation split_scan_join by blast

subsection \<open>The dispatcher returns\<close>

lemma call_llm_returns: "\<exists>r. call_llm e prompt mv ak tp n = Inr r"
  by (simp add: call_llm_def split: sum.splits)

lemma step_output_returns: "step_output e n prompt mv ak tp = Inr (the_output e n prompt mv ak tp)"
proof -
  obtain r where "call_llm e prompt mv ak tp n = Inr r" using call_llm_returns by blast
  then show ?thesis by (simp add: the_output_def step_output_def)
qed

lemma the_output_not_empty: "the_output e n prompt mv ak tp \<noteq> []"
proof -
  obtain r where "call_llm e prompt mv ak tp n = Inr r" using call_llm_returns by blast
  then show ?thesis by (simp add: the_output_def step_output_def)
qed

subsection \<open>One iteration and the loop\<close>

lemma lookup_append_left: "a < length st \<Longrightarrow> lookup (st @ ys) a = lookup st a"
  by (simp add: lookup_def nth_append)

lemma lookup_length: "lookup (st @ ob # ys) (length st) = Some ob"
  by (simp add: lookup_def)

lemma lookup_Some_less: "lookup st a = Some ob \<Longrightarrow> a < length st"
  by (simp add: lookup_def split: if_splits)

lemma other_data_of_append:
  "lookup st0 (other_data fr) = Some (ODict d0) \<Longrightarrow> other_data_of (st0 @ ys) fr = d0"
  by (simp add: other_data_of_def lookup_append_left lookup_Some_less)

lemma list_append_heap_after:
  "list_append (heap_after st0 d0 rs) (length st0) v =
     st0 @ OList (map rec_val rs @ [v]) # map (rec_dict d0 (length st0)) rs"
  by (simp add: list_append_def heap_after_def lookup_length list_update_append)

lemma emissions_after_snoc:
  "emissions_after st0 d0 fr (rs @ [r]) =
     emissions_after st0 d0 fr rs @
       [\<lparr>em_channel = ''step'' @ str_nat (sr_step r),
         em_frame = fr\<lparr>other_data := length st0 + 1 + length rs\<rparr>,
         em_heap = heap_after st0 d0 (rs @ [r])\<rparr>]"
  by (simp add: emissions_after_def step_emission_def nth_append)

lemma configured_le5: "configured s n \<Longrightarrow> n = 1 \<or> n = 2 \<or> n = 3 \<or> n = 4 \<or> n = 5"
  by (simp add: configured_def prompt_template_eq split: if_splits)

lemma getattr_outputs_step:
  "configured s n \<Longrightarrow> getattr_outputs (''step'' @ str_nat n) = Some (''step'' @ str_nat n)"
  by (auto dest!: configured_le5 simp: getattr_outputs_def output_names_def str_nat_lit)

lemma emit_step_heap_after:
  assumes "lookup st0 (other_data fr) = Some (ODict d0)" and "configured s (sr_step r)"
  shows "emit_step fr (length st0) (sr_step r) (sr_prompt r) (sr_output r) (sr_model r)
           (st0 @ OList (map rec_val rs @ [rec_val r]) # map (rec_dict d0 (length st0)) rs)
           (emissions_after st0 d0 fr rs)
         = (heap_after st0 d0 (rs @ [r]), emissions_after st0 d0 fr (rs @ [r]))"
proof -
  have go: "getattr_outputs (''step'' @ str_nat (sr_step r)) = Some (''step'' @ str_nat (sr_step r))"
    using assms(2) by (rule getattr_outputs_step)
  show ?thesis
    unfolding emit_step_def go
    using assms(1)
    by (simp add: alloc_def other_data_of_append emissions_after_snoc heap_after_def rec_dict_def)
qed

lemma do_step_configured:
  assumes "lookup st0 (other_data fr) = Some (ODict d0)"
    and "prompt_template s n = Some (Some t)" and "t \<noteq> []"
    and "model_value s n = Inr mv"
  shows "do_step e s fr (length st0) n
           \<lparr>heap = heap_after st0 d0 rs, previous_output = prev, current_input = cur,
            emitted = emissions_after st0 d0 fr rs\<rparr>
         = (let prompt = format_prompt t cur prev;
                out = the_output e n prompt mv (api_key s n) (temperature s n);
                r = SRec n prompt out mv
            in Continue \<lparr>heap = heap_after st0 d0 (rs @ [r]), previous_output = Some out,
                          current_input = out, emitted = emissions_after st0 d0 fr (rs @ [r])\<rparr>)"
proof -
  define prompt where "prompt = format_prompt t cur prev"
  define out where "out = the_output e n prompt mv (api_key s n) (temperature s n)"
  define r where "r = SRec n prompt out mv"
  have c: "configured s (sr_step r)" using assms(2,3) by (simp add: configured_def r_def)
  have so: "step_output e n prompt mv (api_key s n) (temperature s n) = Inr out"
    by (simp add: step_output_returns out_def)
  have la: "list_append (heap_after st0 d0 rs) (length st0) (step_record n prompt out mv)
              = st0 @ OList (map rec_val rs @ [rec_val r]) # map (rec_dict d0 (length st0)) rs"
    by (simp add: list_append_heap_after rec_val_def r_def)
  have em: "emit_step fr (length st0) n prompt out mv
              (st0 @ OList (map rec_val rs @ [rec_val r]) # map (rec_dict d0 (length st0)) rs)
              (emissions_after st0 d0 fr rs)
            = (heap_after st0 d0 (rs @ [r]), emissions_after st0 d0 fr (rs @ [r]))"
    using emit_step_heap_after [OF assms(1) c, of rs] by (simp add: r_def)
  show ?thesis
    using assms(2,3,4)
    by (simp add: do_step_def Let_def prompt_def [symmetric] so la em out_def [symmetric]
          r_def [symmetric])
qed

lemma do_step_unconfigured:
  "\<not> configured s n \<Longrightarrow> do_step e s fr h n ls = Break"
  by (simp add: configured_def do_step_def split: option.splits)

lemma do_step_model_raises:
  "configured s n \<Longrightarrow> model_value s n = Inl ex \<Longrightarrow> do_step e s fr h n ls = Raise ex"
  by (auto simp: configured_def do_step_def split: option.splits)

lemma run_steps_closed:
  assumes "lookup st0 (other_data fr) = Some (ODict d0)"
  shows "run_steps e s fr (length st0) ns
           \<lparr>heap = heap_after st0 d0 rs, previous_output = prev, current_input = cur,
            emitted = emissions_after st0 d0 fr rs\<rparr>
         = (\<lparr>heap = heap_after st0 d0 (rs @ chain_records e s ns cur prev),
              previous_output = last_output (chain_records e s ns cur prev) prev,
              current_input = last_input (chain_records e s ns cur prev) cur,
              emitted = emissions_after st0 d0 fr (rs @ chain_records e s ns cur prev)\<rparr>,
            chain_raise s ns)"
proof (induction ns arbitrary: rs prev cur)
  case Nil
  then show ?case by (simp add: last_output_def last_input_def)
next
  case (Cons n ns)
  show ?case
  proof (cases "configured s n")
    case False
    then have "chain_records e s (n # ns) cur prev = []" and "chain_raise s (n # ns) = None"
      by (simp_all add: configured_def split: option.splits)
    with False show ?thesis
      by (simp add: do_step_unconfigured last_output_def last_input_def)
  next
    case True
    then obtain t where t: "prompt_template s n = Some (Some t)" "t \<noteq> []"
      by (auto simp: configured_def split: option.splits)
    show ?thesis
    proof (cases "model_value s n")
      case (Inl ex)
      have "chain_records e s (n # ns) cur prev = []" and "chain_raise s (n # ns) = Some ex"
        using t Inl by simp_all
      then show ?thesis
        using do_step_model_raises [OF True Inl]
        by (simp add: last_output_def last_input_def)
    next
      case (Inr mv)
      define prompt where "prompt = format_prompt t cur prev"
      define out where "out = the_output e n prompt mv (api_key s n) (temperature s n)"
      define r where "r = SRec n prompt out mv"
      have cr: "chain_records e s (n # ns) cur prev = r # chain_records e s ns out (Some out)"
        using t Inr by (simp add: Let_def prompt_def out_def r_def)
      have ra: "chain_raise s (n # ns) = chain_raise s ns"
        using t Inr by simp
      have ds: "do_step e s fr (length st0) n
             \<lparr>heap = heap_after st0 d0 rs, previous_output = prev, current_input = cur,
              emitted = emissions_after st0 d0 fr rs\<rparr>
            = Continue \<lparr>heap = heap_after st0 d0 (rs @ [r]), previous_output = Some out,
                            current_input = out, emitted = emissions_after st0 d0 fr (rs @ [r])\<rparr>"
        using do_step_configured [OF assms t Inr, of e rs prev cur]
        by (simp add: Let_def prompt_def out_def r_def)
      have lo: "last_output (r # chain_records e s ns out (Some out)) prev
                  = last_output (chain_records e s ns out (Some out)) (Some out)"
        by (simp add: last_output_def r_def)
      have li: "last_input (r # chain_records e s ns out (Some out)) cur
                  = last_input (chain_records e s ns out (Some out)) out"
        by (simp add: last_input_def r_def)
      show ?thesis
        unfolding cr ra lo li
        using Cons.IH [of "rs @ [r]" "Some out" out]
        by (simp add: ds del: chain_records.simps chain_raise.simps)
    qed
  qed
qed

subsection \<open>The closed form of a run\<close>

lemma valid_input_frame:
  assumes "extract_input_text e st0 fr = Inr inp" and "py_strip inp \<noteq> []"
  shows "\<exists>d0. lookup st0 (other_data fr) = Some (ODict d0)"
proof (rule ccontr)
  assume "\<not> ?thesis"
  then have "other_data_of st0 fr = []"
    by (auto simp: other_data_of_def split: option.splits obj.splits)
  then have "extract_input_text e st0 fr = Inr []"
    by (simp add: extract_input_text_def)
  with assms show False by (simp add: py_strip_def)
qed

lemma other_data_of_lookup:
  "lookup st0 (other_data fr) = Some (ODict d0) \<Longrightarrow> other_data_of st0 fr = d0"
  by (simp add: other_data_of_def)

lemma length_heap_after: "length (heap_after st0 d0 rs) = length st0 + 1 + length rs"
  by (simp add: heap_after_def)

lemma main_closed:
  assumes "extract_input_text e st0 fr = Inr inp" and "py_strip inp \<noteq> []"
    and "lookup st0 (other_data fr) = Some (ODict d0)"
  shows "main e s st0 (Some fr) =
           (case chain_raise s (py_range 1 (num_steps s + 1)) of
              None \<Rightarrow>
                (emissions_after st0 d0 fr (records_of e s inp) @
                   [final_emission st0 d0 fr (records_of e s inp) inp (num_steps s)],
                 final_heap st0 d0 (records_of e s inp) inp (num_steps s), None)
            | Some ex \<Rightarrow>
                (emissions_after st0 d0 fr (records_of e s inp),
                 heap_after st0 d0 (records_of e s inp), Some ex))"
proof -
  have h0: "st0 @ [OList []] = heap_after st0 d0 []" by (simp add: heap_after_def)
  have e0: "[] = emissions_after st0 d0 fr []" by (simp add: emissions_after_def)
  have rs: "run_steps e s fr (length st0) (py_range 1 (num_steps s + 1))
           \<lparr>heap = heap_after st0 d0 [], previous_output = None, current_input = inp,
            emitted = emissions_after st0 d0 fr []\<rparr>
         = (\<lparr>heap = heap_after st0 d0 (records_of e s inp),
              previous_output = last_output (records_of e s inp) None,
              current_input = last_input (records_of e s inp) inp,
              emitted = emissions_after st0 d0 fr (records_of e s inp)\<rparr>,
            chain_raise s (py_range 1 (num_steps s + 1)))"
    using run_steps_closed [OF assms(3), where rs = "[]" and prev = None and cur = inp]
    by (simp add: records_of_def)
  have od: "other_data_of (heap_after st0 d0 (records_of e s inp)) fr = d0"
    using assms(3) by (simp add: heap_after_def other_data_of_append)
  have "main e s st0 (Some fr) =
          (let (step_outputs, st1) = (length st0, heap_after st0 d0 []);
               (ls, raised) = run_steps e s fr step_outputs (py_range 1 (num_steps s + 1))
                          \<lparr>heap = st1, previous_output = None,
                           current_input = inp, emitted = emissions_after st0 d0 fr []\<rparr>
           in (case raised of
                        Some ex \<Rightarrow> (emitted ls, heap ls, Some ex)
                      | None \<Rightarrow>
                          (let (a, st2) =
                                 alloc (heap ls)
                                   (ODict (py_dict_update (other_data_of (heap ls) fr)
                                      (final_overlay (previous_output ls) inp
                                         (num_steps s) step_outputs)))
                           in (emitted ls @ [\<lparr>em_channel = ''final'',
                                               em_frame = fr\<lparr>other_data := a\<rparr>,
                                               em_heap = st2\<rparr>],
                               st2, None))))"
    using assms(1,2) by (simp add: main_def alloc_def h0 [symmetric] e0 [symmetric])
  also have "\<dots> = (case chain_raise s (py_range 1 (num_steps s + 1)) of
              None \<Rightarrow>
                (emissions_after st0 d0 fr (records_of e s inp) @
                   [final_emission st0 d0 fr (records_of e s inp) inp (num_steps s)],
                 final_heap st0 d0 (records_of e s inp) inp (num_steps s), None)
            | Some ex \<Rightarrow>
                (emissions_after st0 d0 fr (records_of e s inp),
                 heap_after st0 d0 (records_of e s inp), Some ex))"
    by (simp add: rs od alloc_def final_emission_def final_heap_def final_dict_def
          length_heap_after split: option.split)
  finally show ?thesis .
qed

lemma chain_raise_Cons:
  "chain_raise s (n # ns) =
     (if configured s n
      then (case model_value s n of Inl ex \<Rightarrow> Some ex | Inr mv \<Rightarrow> chain_raise s ns)
      else None)"
  by (simp add: configured_def split: option.splits)

lemma chain_raise_None:
  "(chain_raise s ns = None) = list_all (model_ok s) (takeWhile (configured s) ns)"
proof (induction ns)
  case Nil
  then show ?case by simp
next
  case (Cons n ns)
  show ?case
    unfolding chain_raise_Cons using Cons.IH by (simp add: model_ok_def split: sum.splits)
qed

lemma models_readable_iff:
  "models_readable s = (chain_raise s (py_range 1 (num_steps s + 1)) = None)"
  by (simp add: models_readable_def chain_raise_None)

subsection \<open>The records of the completed steps\<close>

lemma chain_records_steps:
  "list_all (model_ok s) (takeWhile (configured s) ns) \<Longrightarrow>
     map sr_step (chain_records e s ns cur prev) = takeWhile (configured s) ns"
proof (induction ns arbitrary: cur prev)
  case Nil
  then show ?case by simp
next
  case (Cons n ns)
  show ?case
  proof (cases "configured s n")
    case False
    then have "chain_records e s (n # ns) cur prev = []"
      by (simp add: configured_def split: option.splits)
    with False show ?thesis by simp
  next
    case True
    then obtain t where t: "prompt_template s n = Some (Some t)" "t \<noteq> []"
      by (auto simp: configured_def split: option.splits)
    from Cons.prems True have ok: "model_ok s n"
      and rest: "list_all (model_ok s) (takeWhile (configured s) ns)" by simp_all
    from ok obtain mv where mv: "model_value s n = Inr mv"
      by (auto simp: model_ok_def split: sum.splits)
    show ?thesis
      using t mv True Cons.IH [OF rest] by (simp add: Let_def)
  qed
qed

lemma chain_records_sound:
  "r \<in> set (chain_records e s ns cur prev) \<Longrightarrow>
     model_value s (sr_step r) = Inr (sr_model r) \<and>
     sr_output r = the_output e (sr_step r) (sr_prompt r) (sr_model r)
                     (api_key s (sr_step r)) (temperature s (sr_step r))"
proof (induction ns arbitrary: cur prev)
  case Nil
  then show ?case by simp
next
  case (Cons n ns)
  then show ?case
    by (auto simp: Let_def split: option.splits if_splits sum.splits)
qed

lemma chain_records_output_not_empty:
  "r \<in> set (chain_records e s ns cur prev) \<Longrightarrow> sr_output r \<noteq> []"
  using chain_records_sound [of r e s ns cur prev] by (simp add: the_output_not_empty)

lemma takeWhile_upt: "takeWhile P [a..<b] = [a..<a + length (takeWhile P [a..<b])]"
proof (cases "a \<le> b")
  case False
  then show ?thesis by simp
next
  case True
  define n where "n = length (takeWhile P [a..<b])"
  have "n \<le> length [a..<b]" unfolding n_def by (rule length_takeWhile_le)
  with True have le: "a + n \<le> b" by simp
  have "takeWhile P [a..<b] = take n [a..<b]"
    unfolding n_def by (rule takeWhile_eq_take)
  also have "\<dots> = [a..<a + n]" using le by (rule take_upt)
  finally show ?thesis by (simp add: n_def)
qed

lemma records_of_steps:
  assumes "models_readable s"
  shows "map sr_step (records_of e s inp) = [1..<Suc (completed_steps s)]"
proof -
  have "map sr_step (records_of e s inp) = takeWhile (configured s) (py_range 1 (num_steps s + 1))"
    using assms by (simp add: records_of_def models_readable_def chain_records_steps)
  also have "\<dots> = [1..<1 + completed_steps s]"
    unfolding completed_steps_def py_range_def
    using takeWhile_upt [of "configured s" "nat 1" "nat (num_steps s + 1)"] by simp
  finally show ?thesis by simp
qed

lemma length_records_of:
  "models_readable s \<Longrightarrow> length (records_of e s inp) = completed_steps s"
  using records_of_steps [of s e inp] by (metis length_map length_upt diff_Suc_1)

lemma records_of_nth_step:
  assumes "models_readable s" and "i < completed_steps s"
  shows "sr_step (records_of e s inp ! i) = Suc i"
proof -
  have "sr_step (records_of e s inp ! i) = map sr_step (records_of e s inp) ! i"
    using assms by (simp add: length_records_of)
  also have "\<dots> = [1..<Suc (completed_steps s)] ! i"
    using assms(1) by (simp add: records_of_steps)
  also have "\<dots> = Suc i" using assms(2) nth_upt [of 1 i "Suc (completed_steps s)"] by simp
  finally show ?thesis .
qed

lemma completed_steps_le: "completed_steps s \<le> nat (num_steps s)"
proof -
  have "completed_steps s \<le> length (py_range 1 (num_steps s + 1))"
    unfolding completed_steps_def by (rule length_takeWhile_le)
  then show ?thesis by (simp add: py_range_def)
qed

subsection \<open>The dictionaries and the history of the emitted frames\<close>

lemma map_of_step_dict:
  "map_of (py_dict_update d0 (step_overlay n p out mv h)) =
     (map_of d0)(''chain_step'' \<mapsto> PInt (int n), ''chain_output'' \<mapsto> PStr out,
                 ''chain_prompt'' \<mapsto> PStr p, ''chain_model'' \<mapsto> model_val mv,
                 ''chain_history'' \<mapsto> PRef h)"
  by (simp add: py_dict_update_def step_overlay_def update_conv')

lemma map_of_final_dict:
  "map_of (final_dict d0 rs inp n h) =
     (map_of d0)(''chain_final_output'' \<mapsto>
                    PStr (case last_output rs None of None \<Rightarrow> inp
                          | Some p \<Rightarrow> if p \<noteq> [] then p else inp),
                 ''chain_steps'' \<mapsto> PInt n, ''chain_history'' \<mapsto> PRef h,
                 ''chain_complete'' \<mapsto> PBool True)"
  by (simp add: final_dict_def py_dict_update_def final_overlay_def update_conv')

lemma lookup_heap_after_dict:
  "i < length rs \<Longrightarrow>
     lookup (heap_after st0 d0 rs @ X) (length st0 + 1 + i) = Some (rec_dict d0 (length st0) (rs ! i))"
  by (simp add: lookup_def heap_after_def nth_append)

lemma lookup_heap_after_list:
  "lookup (heap_after st0 d0 rs @ X) (length st0) = Some (OList (map rec_val rs))"
  by (simp add: lookup_def heap_after_def nth_append)

lemma lookup_heap_after_old:
  "a < length st0 \<Longrightarrow> lookup (heap_after st0 d0 rs @ X) a = lookup st0 a"
  by (simp add: lookup_def heap_after_def nth_append)

lemma field_step_frame:
  assumes "i < length rs"
  shows "field (heap_after st0 d0 rs @ X) (fr\<lparr>other_data := length st0 + 1 + i\<rparr>) =
           map_of (py_dict_update d0 (step_overlay (sr_step (rs ! i)) (sr_prompt (rs ! i))
                     (sr_output (rs ! i)) (sr_model (rs ! i)) (length st0)))"
  using lookup_heap_after_dict [OF assms, of st0 d0 X]
  by (simp add: field_def other_data_of_def rec_dict_def fun_eq_iff)

lemma history_step_frame:
  assumes "i < length rs"
  shows "history_of (heap_after st0 d0 rs @ X) (fr\<lparr>other_data := length st0 + 1 + i\<rparr>) =
           map rec_val rs"
  unfolding history_of_def field_step_frame [OF assms]
  by (simp add: map_of_step_dict deref_def lookup_heap_after_list)

lemma field_final_frame:
  "field (final_heap st0 d0 rs inp n) (fr\<lparr>other_data := length st0 + 1 + length rs\<rparr>) =
     map_of (final_dict d0 rs inp n (length st0))"
  by (simp add: field_def other_data_of_def final_heap_def lookup_def heap_after_def nth_append
        fun_eq_iff)

lemma history_final_frame:
  "history_of (final_heap st0 d0 rs inp n) (fr\<lparr>other_data := length st0 + 1 + length rs\<rparr>) =
     map rec_val rs"
  unfolding history_of_def field_final_frame
  by (simp add: map_of_final_dict deref_def final_heap_def lookup_heap_after_list)

lemma emissions_after_nth:
  "i < length rs \<Longrightarrow> (emissions_after st0 d0 fr rs @ ems) ! i = step_emission st0 d0 fr rs i"
  by (simp add: emissions_after_def nth_append)

lemma length_emissions_after: "length (emissions_after st0 d0 fr rs) = length rs"
  by (simp add: emissions_after_def)

subsection \<open>Runs on valid input\<close>

lemma run_facts:
  assumes "extract_input_text e st0 fr = Inr inp" and "py_strip inp \<noteq> []"
    and "models_readable s"
  shows "\<exists>d0. lookup st0 (other_data fr) = Some (ODict d0) \<and>
           emissions e s st0 fr = emissions_after st0 d0 fr (records_of e s inp) @
              [final_emission st0 d0 fr (records_of e s inp) inp (num_steps s)] \<and>
           end_store e s st0 fr = final_heap st0 d0 (records_of e s inp) inp (num_steps s) \<and>
           raised e s st0 fr = None"
proof -
  obtain d0 where d0: "lookup st0 (other_data fr) = Some (ODict d0)"
    using valid_input_frame [OF assms(1,2)] by blast
  show ?thesis
    using main_closed [OF assms(1,2) d0, of s] d0 assms(3)
    by (simp add: emissions_def end_store_def raised_def models_readable_iff)
qed

lemma channels_emissions_after:
  "map em_channel (emissions_after st0 d0 fr rs) = map (\<lambda>r. ''step'' @ str_nat (sr_step r)) rs"
proof -
  have "map em_channel (emissions_after st0 d0 fr rs)
          = map (\<lambda>i. (\<lambda>r. ''step'' @ str_nat (sr_step r)) (rs ! i)) [0..<length rs]"
    by (simp add: emissions_after_def step_emission_def)
  also have "\<dots> = map (\<lambda>r. ''step'' @ str_nat (sr_step r)) rs"
    by (rule nth_equalityI) simp_all
  finally show ?thesis .
qed

lemma run_channels:
  assumes "extract_input_text e st0 fr = Inr inp" and "py_strip inp \<noteq> []"
    and "models_readable s"
  shows "map em_channel (emissions e s st0 fr) =
           map (\<lambda>n. ''step'' @ str_nat n) [1..<Suc (completed_steps s)] @ [''final'']"
proof -
  obtain d0 where em: "emissions e s st0 fr = emissions_after st0 d0 fr (records_of e s inp) @
              [final_emission st0 d0 fr (records_of e s inp) inp (num_steps s)]"
    using run_facts [OF assms] by blast
  have "map (\<lambda>r. ''step'' @ str_nat (sr_step r)) (records_of e s inp)
          = map (\<lambda>n. ''step'' @ str_nat n) (map sr_step (records_of e s inp))"
    by simp
  also have "\<dots> = map (\<lambda>n. ''step'' @ str_nat n) [1..<Suc (completed_steps s)]"
    by (simp only: records_of_steps [OF assms(3)])
  finally show ?thesis
    by (simp add: em channels_emissions_after final_emission_def)
qed

lemma run_last_emission:
  assumes "extract_input_text e st0 fr = Inr inp" and "py_strip inp \<noteq> []"
    and "models_readable s"
  shows "\<exists>d0. lookup st0 (other_data fr) = Some (ODict d0) \<and>
           last (emissions e s st0 fr) =
             final_emission st0 d0 fr (records_of e s inp) inp (num_steps s) \<and>
           end_store e s st0 fr = final_heap st0 d0 (records_of e s inp) inp (num_steps s)"
  using run_facts [OF assms] by auto

lemma run_final_history:
  assumes "extract_input_text e st0 fr = Inr inp" and "py_strip inp \<noteq> []"
    and "models_readable s"
  shows "history_of (end_store e s st0 fr) (em_frame (last (emissions e s st0 fr))) =
           map rec_val (records_of e s inp)"
proof -
  obtain d0 where "last (emissions e s st0 fr) =
             final_emission st0 d0 fr (records_of e s inp) inp (num_steps s)"
    and "end_store e s st0 fr = final_heap st0 d0 (records_of e s inp) inp (num_steps s)"
    using run_last_emission [OF assms] by blast
  then show ?thesis
    using history_final_frame [of st0 d0 "records_of e s inp" inp "num_steps s" fr]
    by (simp add: final_emission_def)
qed

lemma run_final_field:
  assumes "extract_input_text e st0 fr = Inr inp" and "py_strip inp \<noteq> []"
    and "models_readable s"
  shows "field (end_store e s st0 fr) (em_frame (last (emissions e s st0 fr))) =
           map_of (final_dict (other_data_of st0 fr) (records_of e s inp) inp (num_steps s)
                     (length st0))"
proof -
  obtain d0 where d0: "lookup st0 (other_data fr) = Some (ODict d0)"
    and "last (emissions e s st0 fr) =
             final_emission st0 d0 fr (records_of e s inp) inp (num_steps s)"
    and "end_store e s st0 fr = final_heap st0 d0 (records_of e s inp) inp (num_steps s)"
    using run_last_emission [OF assms] by blast
  then show ?thesis
    using field_final_frame [of st0 d0 "records_of e s inp" inp "num_steps s" fr]
    by (simp add: final_emission_def other_data_of_lookup [OF d0])
qed

lemma record_field_step: "record_field (rec_val r) ''step'' = Some (PInt (int (sr_step r)))"
  by (simp add: record_field_def rec_val_def step_record_def)

lemma record_field_output: "record_field (rec_val r) ''output'' = Some (PStr (sr_output r))"
  by (simp add: record_field_def rec_val_def step_record_def)

lemma history_steps:
  assumes "models_readable s"
  shows "map (\<lambda>r. record_field r ''step'') (map rec_val (records_of e s inp)) =
     map (\<lambda>n. Some (PInt (int n))) [1..<Suc (completed_steps s)]"
proof -
  have "map (\<lambda>r. record_field r ''step'') (map rec_val (records_of e s inp))
          = map (\<lambda>n. Some (PInt (int n))) (map sr_step (records_of e s inp))"
    by (simp add: record_field_step)
  then show ?thesis by (simp only: records_of_steps [OF assms])
qed

lemma completed_steps_halt:
  assumes "1 \<le> i" and "int i \<le> num_steps s"
    and "\<forall>j. 1 \<le> j \<and> j < i \<longrightarrow> configured s j" and "\<not> configured s i"
  shows "completed_steps s = i - 1"
proof -
  have lt: "i < nat (num_steps s + 1)" using assms(2) by linarith
  have "[1..<nat (num_steps s + 1)] = [1..<i] @ [i..<nat (num_steps s + 1)]"
    using assms(1) lt upt_add_eq_append [of 1 i "nat (num_steps s + 1) - i"] by simp
  also have "[i..<nat (num_steps s + 1)] = i # [Suc i..<nat (num_steps s + 1)]"
    using lt by (rule upt_conv_Cons)
  finally have split: "[1..<nat (num_steps s + 1)] = [1..<i] @ i # [Suc i..<nat (num_steps s + 1)]" .
  have "takeWhile (configured s) ([1..<i] @ i # [Suc i..<nat (num_steps s + 1)]) = [1..<i]"
    using assms(3,4) by (simp add: takeWhile_tail)
  then have "takeWhile (configured s) [1..<nat (num_steps s + 1)] = [1..<i]"
    by (simp only: split)
  then show ?thesis
    by (simp add: completed_steps_def py_range_def)
qed

lemma upt_steps:
  "[Suc 0..<2] = [Suc 0]" "[Suc 0..<3] = [Suc 0, 2]" "[Suc 0..<4] = [Suc 0, 2, 3]"
  "[Suc 0..<5] = [Suc 0, 2, 3, 4]" "[Suc 0..<6] = [Suc 0, 2, 3, 4, 5]"
  by code_simp+

lemma ex_input: "extract_input_text ex_env ex_store ex_frame = Inr ''Hello''"
  by code_simp

lemma ex_input_not_blank: "py_strip ''Hello'' \<noteq> []"
  by code_simp

lemma content_items_text_parts:
  "content_items_text st (map (\<lambda>t. PDict [(''type'', PStr ''text''), (''text'', PStr t)]) ts) acc
     = Inr (acc @ concat (map (\<lambda>t. t @ '' '') ts))"
  by (induction ts arbitrary: acc) (simp_all add: deref_def)

lemma api_messages_text_user:
  "api_messages_text st (map user_message cs) acc = Inr (acc @ concat (map content_text cs))"
proof (induction cs arbitrary: acc)
  case Nil
  then show ?case by simp
next
  case (Cons c cs)
  show ?case
  proof (cases c)
    case (Str x)
    then show ?thesis using Cons.IH by (simp add: user_message_def deref_def)
  next
    case (Parts ts)
    then show ?thesis
      using Cons.IH by (simp add: user_message_def deref_def content_items_text_parts)
  qed
qed

lemma completed_steps_ge:
  assumes "\<forall>j. 1 \<le> j \<and> j \<le> i \<longrightarrow> configured s j" and "int i \<le> num_steps s"
  shows "i \<le> completed_steps s"
proof -
  have le: "Suc i \<le> nat (num_steps s + 1)" using assms(2) by linarith
  have "[1..<nat (num_steps s + 1)] = [1..<Suc i] @ [Suc i..<nat (num_steps s + 1)]"
    using le upt_add_eq_append [of 1 "Suc i" "nat (num_steps s + 1) - Suc i"] by simp
  moreover have "\<forall>x \<in> set [1..<Suc i]. configured s x" using assms(1) by auto
  ultimately have "takeWhile (configured s) [1..<nat (num_steps s + 1)]
                     = [1..<Suc i] @ takeWhile (configured s) [Suc i..<nat (num_steps s + 1)]"
    by (simp only: takeWhile_append2)
  then have "length (takeWhile (configured s) [1..<nat (num_steps s + 1)]) \<ge> i" by simp
  then show ?thesis by (simp add: completed_steps_def py_range_def)
qed

lemma run_step_emission:
  assumes "extract_input_text e st0 fr = Inr inp" and "py_strip inp \<noteq> []"
    and "models_readable s"
    and "i < completed_steps s"
  shows "\<exists>d0. lookup st0 (other_data fr) = Some (ODict d0) \<and>
           emissions e s st0 fr ! i = step_emission st0 d0 fr (records_of e s inp) i \<and>
           end_store e s st0 fr = final_heap st0 d0 (records_of e s inp) inp (num_steps s)"
proof -
  obtain d0 where d0: "lookup st0 (other_data fr) = Some (ODict d0)"
    and em: "emissions e s st0 fr = emissions_after st0 d0 fr (records_of e s inp) @
              [final_emission st0 d0 fr (records_of e s inp) inp (num_steps s)]"
    and es: "end_store e s st0 fr = final_heap st0 d0 (records_of e s inp) inp (num_steps s)"
    using run_facts [OF assms(1,2,3)] by blast
  have "i < length (records_of e s inp)" using assms(3,4) by (simp add: length_records_of)
  then have "emissions e s st0 fr ! i = step_emission st0 d0 fr (records_of e s inp) i"
    unfolding em by (rule emissions_after_nth)
  with d0 es show ?thesis by blast
qed

lemma run_step_field:
  assumes "extract_input_text e st0 fr = Inr inp" and "py_strip inp \<noteq> []"
    and "models_readable s"
    and "i < completed_steps s"
  shows "field (em_heap (emissions e s st0 fr ! i)) (em_frame (emissions e s st0 fr ! i))
           = map_of (step_dict (other_data_of st0 fr) (length st0) (records_of e s inp ! i))"
    and "field (end_store e s st0 fr) (em_frame (emissions e s st0 fr ! i))
           = map_of (step_dict (other_data_of st0 fr) (length st0) (records_of e s inp ! i))"
proof -
  obtain d0 where d0: "lookup st0 (other_data fr) = Some (ODict d0)"
    and em: "emissions e s st0 fr ! i = step_emission st0 d0 fr (records_of e s inp) i"
    and es: "end_store e s st0 fr = final_heap st0 d0 (records_of e s inp) inp (num_steps s)"
    using run_step_emission [OF assms] by blast
  have od: "other_data_of st0 fr = d0" using d0 by (rule other_data_of_lookup)
  have len: "i < length (records_of e s inp)" using assms(3,4) by (simp add: length_records_of)
  then have len': "i < length (take (Suc i) (records_of e s inp))" by simp
  have "field (heap_after st0 d0 (take (Suc i) (records_of e s inp)) @ [])
          (fr\<lparr>other_data := length st0 + 1 + i\<rparr>)
        = map_of (step_dict d0 (length st0) (take (Suc i) (records_of e s inp) ! i))"
    unfolding step_dict_def by (rule field_step_frame [OF len'])
  then show "field (em_heap (emissions e s st0 fr ! i)) (em_frame (emissions e s st0 fr ! i))
           = map_of (step_dict (other_data_of st0 fr) (length st0) (records_of e s inp ! i))"
    by (simp add: em step_emission_def od)
  have "field (heap_after st0 d0 (records_of e s inp) @
                 [ODict (final_dict d0 (records_of e s inp) inp (num_steps s) (length st0))])
          (fr\<lparr>other_data := length st0 + 1 + i\<rparr>)
        = map_of (step_dict d0 (length st0) (records_of e s inp ! i))"
    unfolding step_dict_def by (rule field_step_frame [OF len])
  then show "field (end_store e s st0 fr) (em_frame (emissions e s st0 fr ! i))
           = map_of (step_dict (other_data_of st0 fr) (length st0) (records_of e s inp ! i))"
    by (simp add: em es step_emission_def od final_heap_def)
qed

lemma map_of_step_dict':
  "map_of (step_dict d0 h r) =
     (map_of d0)(''chain_step'' \<mapsto> PInt (int (sr_step r)), ''chain_output'' \<mapsto> PStr (sr_output r),
                 ''chain_prompt'' \<mapsto> PStr (sr_prompt r), ''chain_model'' \<mapsto> model_val (sr_model r),
                 ''chain_history'' \<mapsto> PRef h)"
  by (simp add: step_dict_def map_of_step_dict)

lemma records_of_output_not_empty:
  "models_readable s \<Longrightarrow> i < completed_steps s \<Longrightarrow> sr_output (records_of e s inp ! i) \<noteq> []"
proof -
  assume "models_readable s" and "i < completed_steps s"
  then have "records_of e s inp ! i \<in> set (records_of e s inp)"
    by (simp add: length_records_of)
  then show ?thesis
    unfolding records_of_def by (rule chain_records_output_not_empty)
qed

lemma records_of_sound:
  assumes "models_readable s" and "i < completed_steps s"
  shows "model_value s (Suc i) = Inr (sr_model (records_of e s inp ! i))"
    and "sr_output (records_of e s inp ! i) =
           the_output e (Suc i) (sr_prompt (records_of e s inp ! i))
             (sr_model (records_of e s inp ! i)) (api_key s (Suc i)) (temperature s (Suc i))"
proof -
  have "records_of e s inp ! i \<in> set (records_of e s inp)"
    using assms by (simp add: length_records_of)
  then have "records_of e s inp ! i
               \<in> set (chain_records e s (py_range 1 (num_steps s + 1)) inp None)"
    by (simp add: records_of_def)
  from chain_records_sound [OF this] records_of_nth_step [OF assms, of e inp]
  show "model_value s (Suc i) = Inr (sr_model (records_of e s inp ! i))"
    and "sr_output (records_of e s inp ! i) =
           the_output e (Suc i) (sr_prompt (records_of e s inp ! i))
             (sr_model (records_of e s inp ! i)) (api_key s (Suc i)) (temperature s (Suc i))"
    by simp_all
qed

lemma local_output:
  "the_output e n p (Some ''local'') ak tp = ''[Step '' @ str_nat n @ '' output - requires LLM element]''"
  by (simp add: the_output_def step_output_def)

lemma ex_settings_a_facts:
  "num_steps (ex_settings\<lparr>num_steps := 1\<rparr>) = 1"
  "configured (ex_settings\<lparr>num_steps := 1\<rparr>) 1"
  "model_value (ex_settings\<lparr>num_steps := 1\<rparr>) 1 = Inr (Some ''local'')"
  "models_readable (ex_settings\<lparr>num_steps := 1\<rparr>)"
  by code_simp+

lemma ex_readable: "models_readable ex_settings"
  by code_simp

lemma ex_readable_b: "models_readable ex_settings_b"
  by code_simp

lemma six_readable: "models_readable six_settings"
  by code_simp

lemma length_emissions:
  assumes "extract_input_text e st0 fr = Inr inp" and "py_strip inp \<noteq> []"
    and "models_readable s"
  shows "length (emissions e s st0 fr) = Suc (completed_steps s)"
  using run_channels [OF assms] by (metis length_map length_append_singleton length_upt diff_Suc_1)

lemma run_step_channel:
  assumes "extract_input_text e st0 fr = Inr inp" and "py_strip inp \<noteq> []"
    and "models_readable s"
    and "i < completed_steps s"
  shows "em_channel (emissions e s st0 fr ! i) = ''step'' @ str_nat (Suc i)"
proof -
  obtain d0 where "emissions e s st0 fr ! i = step_emission st0 d0 fr (records_of e s inp) i"
    using run_step_emission [OF assms] by blast
  then show ?thesis
    using records_of_nth_step [OF assms(3,4), of e inp] by (simp add: step_emission_def)
qed

lemma run_final_emission:
  assumes "extract_input_text e st0 fr = Inr inp" and "py_strip inp \<noteq> []"
    and "models_readable s"
  shows "emissions e s st0 fr ! completed_steps s = last (emissions e s st0 fr)"
    and "em_channel (last (emissions e s st0 fr)) = ''final''"
    and "em_heap (last (emissions e s st0 fr)) = end_store e s st0 fr"
proof -
  have ne: "emissions e s st0 fr \<noteq> []" using length_emissions [OF assms] by auto
  show "emissions e s st0 fr ! completed_steps s = last (emissions e s st0 fr)"
    using ne length_emissions [OF assms] by (simp add: last_conv_nth)
  obtain d0 where l: "last (emissions e s st0 fr) =
             final_emission st0 d0 fr (records_of e s inp) inp (num_steps s)"
    and es: "end_store e s st0 fr = final_heap st0 d0 (records_of e s inp) inp (num_steps s)"
    using run_last_emission [OF assms] by blast
  show "em_channel (last (emissions e s st0 fr)) = ''final''"
    by (simp add: l final_emission_def)
  show "em_heap (last (emissions e s st0 fr)) = end_store e s st0 fr"
    by (simp add: l es final_emission_def)
qed

lemma emitted_frame_fields_readable:
  assumes "extract_input_text e st0 fr = Inr inp" and "py_strip inp \<noteq> []"
    and "models_readable s"
    and "em \<in> set (emissions e s st0 fr)"
  shows "(\<forall>k. field st0 fr k \<noteq> None \<longrightarrow> field (em_heap em) (em_frame em) k \<noteq> None) \<and>
         (\<forall>k. k \<notin> set (overlay_keys (em_channel em)) \<longrightarrow>
               field (em_heap em) (em_frame em) k = field st0 fr k) \<and>
         (\<forall>k \<in> set (overlay_keys (em_channel em)). field (em_heap em) (em_frame em) k \<noteq> None) \<and>
         field (end_store e s st0 fr) (em_frame em) = field (em_heap em) (em_frame em)"
proof -
  obtain i where i: "i < Suc (completed_steps s)" and em: "em = emissions e s st0 fr ! i"
    using assms(4) length_emissions [OF assms(1,2,3)] by (metis in_set_conv_nth)
  show ?thesis
  proof (cases "i < completed_steps s")
    case True
    have ch: "em_channel em = ''step'' @ str_nat (Suc i)"
      using run_step_channel [OF assms(1,2,3) True] em by simp
    then have ok: "overlay_keys (em_channel em) =
                     [''chain_step'', ''chain_output'', ''chain_prompt'', ''chain_model'',
                      ''chain_history'']"
      by (simp add: overlay_keys_def)
    have f: "field (em_heap em) (em_frame em)
               = map_of (step_dict (other_data_of st0 fr) (length st0) (records_of e s inp ! i))"
      and g: "field (end_store e s st0 fr) (em_frame em)
               = map_of (step_dict (other_data_of st0 fr) (length st0) (records_of e s inp ! i))"
      using run_step_field [OF assms(1,2,3) True] em by simp_all
    show ?thesis
      unfolding ok f g by (simp add: map_of_step_dict' field_def)
  next
    case False
    with i have ik: "i = completed_steps s" by simp
    then have l: "em = last (emissions e s st0 fr)"
      using run_final_emission(1) [OF assms(1,2,3)] em by simp
    have ok: "overlay_keys (em_channel em) =
                [''chain_final_output'', ''chain_steps'', ''chain_history'', ''chain_complete'']"
      using run_final_emission(2) [OF assms(1,2,3)] l by (simp add: overlay_keys_def)
    have h: "em_heap em = end_store e s st0 fr"
      using run_final_emission(3) [OF assms(1,2,3)] l by simp
    have f: "field (end_store e s st0 fr) (em_frame em)
               = map_of (final_dict (other_data_of st0 fr) (records_of e s inp) inp (num_steps s)
                     (length st0))"
      using run_final_field [OF assms(1,2,3)] l by simp
    show ?thesis
      unfolding ok h f by (simp add: map_of_final_dict field_def)
  qed
qed

lemma run_facts_raise:
  assumes "extract_input_text e st0 fr = Inr inp" and "py_strip inp \<noteq> []"
    and "\<not> models_readable s"
  shows "\<exists>d0 ex. lookup st0 (other_data fr) = Some (ODict d0) \<and>
           emissions e s st0 fr = emissions_after st0 d0 fr (records_of e s inp) \<and>
           end_store e s st0 fr = heap_after st0 d0 (records_of e s inp) \<and>
           raised e s st0 fr = Some ex \<and>
           chain_raise s (py_range 1 (num_steps s + 1)) = Some ex"
proof -
  obtain d0 where d0: "lookup st0 (other_data fr) = Some (ODict d0)"
    using valid_input_frame [OF assms(1,2)] by blast
  obtain ex where ex: "chain_raise s (py_range 1 (num_steps s + 1)) = Some ex"
    using assms(3) by (auto simp: models_readable_iff)
  show ?thesis
    using main_closed [OF assms(1,2) d0, of s] d0 ex
    by (simp add: emissions_def end_store_def raised_def)
qed

lemma emitted_frame_fields_raise:
  assumes "extract_input_text e st0 fr = Inr inp" and "py_strip inp \<noteq> []"
    and "\<not> models_readable s"
    and "em \<in> set (emissions e s st0 fr)"
  shows "(\<forall>k. field st0 fr k \<noteq> None \<longrightarrow> field (em_heap em) (em_frame em) k \<noteq> None) \<and>
         (\<forall>k. k \<notin> set (overlay_keys (em_channel em)) \<longrightarrow>
               field (em_heap em) (em_frame em) k = field st0 fr k) \<and>
         (\<forall>k \<in> set (overlay_keys (em_channel em)). field (em_heap em) (em_frame em) k \<noteq> None) \<and>
         field (end_store e s st0 fr) (em_frame em) = field (em_heap em) (em_frame em)"
proof -
  define rs where "rs = records_of e s inp"
  obtain d0 where d0: "lookup st0 (other_data fr) = Some (ODict d0)"
    and ems: "emissions e s st0 fr = emissions_after st0 d0 fr rs"
    and es: "end_store e s st0 fr = heap_after st0 d0 rs"
    using run_facts_raise [OF assms(1,2,3)] unfolding rs_def by blast
  have od: "other_data_of st0 fr = d0" using d0 by (rule other_data_of_lookup)
  obtain i where i: "i < length rs" and em: "em = step_emission st0 d0 fr rs i"
    using assms(4) unfolding ems emissions_after_def by auto
  have ch: "em_channel em = ''step'' @ str_nat (sr_step (rs ! i))"
    by (simp add: em step_emission_def)
  have ok: "overlay_keys (em_channel em) =
              [''chain_step'', ''chain_output'', ''chain_prompt'', ''chain_model'',
               ''chain_history'']"
    unfolding ch by (simp add: overlay_keys_def)
  have len': "i < length (take (Suc i) rs)" using i by simp
  have "field (heap_after st0 d0 (take (Suc i) rs) @ []) (fr\<lparr>other_data := length st0 + 1 + i\<rparr>)
          = map_of (step_dict d0 (length st0) (take (Suc i) rs ! i))"
    unfolding step_dict_def by (rule field_step_frame [OF len'])
  then have f: "field (em_heap em) (em_frame em) = map_of (step_dict d0 (length st0) (rs ! i))"
    by (simp add: em step_emission_def)
  have "field (heap_after st0 d0 rs @ []) (fr\<lparr>other_data := length st0 + 1 + i\<rparr>)
          = map_of (step_dict d0 (length st0) (rs ! i))"
    unfolding step_dict_def by (rule field_step_frame [OF i])
  then have g: "field (end_store e s st0 fr) (em_frame em)
                  = map_of (step_dict d0 (length st0) (rs ! i))"
    by (simp add: em es step_emission_def)
  show ?thesis
    unfolding ok f g by (simp add: map_of_step_dict' field_def od)
qed

lemma emitted_frame_fields:
  assumes "extract_input_text e st0 fr = Inr inp" and "py_strip inp \<noteq> []"
    and "em \<in> set (emissions e s st0 fr)"
  shows "(\<forall>k. field st0 fr k \<noteq> None \<longrightarrow> field (em_heap em) (em_frame em) k \<noteq> None) \<and>
         (\<forall>k. k \<notin> set (overlay_keys (em_channel em)) \<longrightarrow>
               field (em_heap em) (em_frame em) k = field st0 fr k) \<and>
         (\<forall>k \<in> set (overlay_keys (em_channel em)). field (em_heap em) (em_frame em) k \<noteq> None) \<and>
         field (end_store e s st0 fr) (em_frame em) = field (em_heap em) (em_frame em)"
proof (cases "models_readable s")
  case True
  show ?thesis by (rule emitted_frame_fields_readable [OF assms(1,2) True assms(3)])
next
  case False
  show ?thesis by (rule emitted_frame_fields_raise [OF assms(1,2) False assms(3)])
qed

lemma raised_None_readable:
  assumes "extract_input_text e st0 fr = Inr inp" and "py_strip inp \<noteq> []"
  shows "(raised e s st0 fr = None) = models_readable s"
proof (cases "models_readable s")
  case True
  then show ?thesis using run_facts [OF assms True] by blast
next
  case False
  then show ?thesis using run_facts_raise [OF assms False] by auto
qed

lemma ex_final_emission:
  "last (emissions ex_env ex_settings ex_store ex_frame)
     \<in> set (emissions ex_env ex_settings ex_store ex_frame)"
  using length_emissions [OF ex_input ex_input_not_blank ex_readable]
  by (metis last_in_set length_0_conv nat.distinct(1))

lemma chained_input: "extract_input_text ex_env chained_store ex_frame = Inr ''Hello''"
  by code_simp

lemma call_llm_provider_raises:
  "openai_create e n prompt ak tp = Inl ex \<Longrightarrow> call_llm e prompt (Some ''openai'') ak tp n = Inr []"
  "anthropic_create e n prompt ak tp = Inl ex \<Longrightarrow>
     call_llm e prompt (Some ''anthropic'') ak tp n = Inr []"
  by (simp_all add: call_llm_def openai_body_def anthropic_body_def)

lemma step_output_no_output:
  "mv \<noteq> Some ''local'' \<Longrightarrow> call_llm e prompt mv ak tp n = Inr [] \<Longrightarrow>
     step_output e n prompt mv ak tp = Inr (''[Step '' @ str_nat n @ '' - no output]'')"
  by (simp add: step_output_def)

lemma run_history_nth:
  assumes "extract_input_text e st0 fr = Inr inp" and "py_strip inp \<noteq> []"
    and "models_readable s"
    and "j < completed_steps s"
  shows "history_of (end_store e s st0 fr) (em_frame (last (emissions e s st0 fr))) ! j
           = rec_val (records_of e s inp ! j)"
  using assms(3,4) by (simp add: run_final_history [OF assms(1,2,3)] length_records_of)

lemma ex_settings_d_facts:
  "completed_steps ex_settings_d = 3"
  "model_value ex_settings_d 2 = Inr (Some ''openai'')"
  "models_readable ex_settings_d"
  "api_key ex_settings_d 2 = Some []"
  "temperature ex_settings_d 2 = 7 / 10"
  by code_simp+

lemma absent_settings:
  "getattr_text s ''step4_api_key'' = None" "getattr_float s ''step4_temperature'' = None"
  "getattr_text s ''step5_api_key'' = None" "getattr_float s ''step5_temperature'' = None"
  "getattr_text s ''step6_prompt'' = None"
  by (simp_all add: getattr_text_def getattr_float_def text_settings_def float_settings_def)

lemma defaults_4_5:
  "api_key s 4 = Some []" "temperature s 4 = 7 / 10"
  "api_key s 5 = Some []" "temperature s 5 = 7 / 10"
  by (simp_all add: api_key_eq temperature_eq)

lemma run_step_executes:
  assumes "extract_input_text e st0 fr = Inr inp" and "py_strip inp \<noteq> []"
    and "models_readable s"
    and "1 \<le> i" and "int i \<le> num_steps s"
    and "\<forall>j. 1 \<le> j \<and> j \<le> i \<longrightarrow> configured s j"
  shows "i - 1 < completed_steps s \<and>
         em_channel (emissions e s st0 fr ! (i - 1)) = ''step'' @ str_nat i \<and>
         (\<exists>mv p out.
            model_value s i = Inr mv \<and>
            field (em_heap (emissions e s st0 fr ! (i - 1)))
              (em_frame (emissions e s st0 fr ! (i - 1))) ''chain_model'' = Some (model_val mv) \<and>
            field (em_heap (emissions e s st0 fr ! (i - 1)))
              (em_frame (emissions e s st0 fr ! (i - 1))) ''chain_prompt'' = Some (PStr p) \<and>
            field (em_heap (emissions e s st0 fr ! (i - 1)))
              (em_frame (emissions e s st0 fr ! (i - 1))) ''chain_output'' = Some (PStr out) \<and>
            step_output e i p mv (api_key s i) (temperature s i) = Inr out)"
proof -
  have "i \<le> completed_steps s" using assms(6,5) by (rule completed_steps_ge)
  with assms(4) have lt: "i - 1 < completed_steps s" by simp
  have si: "Suc (i - 1) = i" using assms(4) by simp
  define r where "r = records_of e s inp ! (i - 1)"
  have ch: "em_channel (emissions e s st0 fr ! (i - 1)) = ''step'' @ str_nat i"
    using run_step_channel [OF assms(1,2,3) lt] by (simp only: si)
  have f: "field (em_heap (emissions e s st0 fr ! (i - 1)))
             (em_frame (emissions e s st0 fr ! (i - 1)))
           = map_of (step_dict (other_data_of st0 fr) (length st0) r)"
    unfolding r_def by (rule run_step_field(1) [OF assms(1,2,3) lt])
  have m: "model_value s i = Inr (sr_model r)"
    using records_of_sound(1) [OF assms(3) lt, of e inp] by (simp only: si r_def)
  have o: "sr_output r = the_output e i (sr_prompt r) (sr_model r) (api_key s i)
                           (temperature s i)"
    using records_of_sound(2) [OF assms(3) lt, of e inp] by (simp only: si r_def)
  have so: "step_output e i (sr_prompt r) (sr_model r) (api_key s i) (temperature s i)
              = Inr (sr_output r)"
    by (simp add: step_output_returns o [symmetric])
  have "field (em_heap (emissions e s st0 fr ! (i - 1)))
          (em_frame (emissions e s st0 fr ! (i - 1))) ''chain_model''
        = Some (model_val (sr_model r))"
    unfolding f by (simp add: map_of_step_dict')
  moreover have "field (em_heap (emissions e s st0 fr ! (i - 1)))
              (em_frame (emissions e s st0 fr ! (i - 1))) ''chain_prompt'' = Some (PStr (sr_prompt r))"
    unfolding f by (simp add: map_of_step_dict')
  moreover have "field (em_heap (emissions e s st0 fr ! (i - 1)))
              (em_frame (emissions e s st0 fr ! (i - 1))) ''chain_output'' = Some (PStr (sr_output r))"
    unfolding f by (simp add: map_of_step_dict')
  ultimately show ?thesis using lt ch so m by blast
qed

lemma ex_settings_e_facts:
  "int 4 \<le> num_steps ex_settings_e"
  "configured ex_settings_e 1" "configured ex_settings_e 2"
  "configured ex_settings_e 3" "configured ex_settings_e 4"
  "model_value ex_settings_e 4 = Inr (Some ''anthropic'')"
  "models_readable ex_settings_e"
  by code_simp+

lemma completed_steps_le5: "completed_steps s \<le> 5"
proof (rule ccontr)
  assume "\<not> completed_steps s \<le> 5"
  then have k: "6 \<le> completed_steps s" by simp
  define ns where "ns = py_range 1 (num_steps s + 1)"
  have tw: "takeWhile (configured s) ns = [1..<Suc (completed_steps s)]"
    using takeWhile_upt [of "configured s" "nat 1" "nat (num_steps s + 1)"]
    by (simp add: completed_steps_def py_range_def ns_def)
  have "6 \<in> set [1..<Suc (completed_steps s)]" using k by (simp del: upt_Suc)
  then have "6 \<in> set (takeWhile (configured s) ns)" by (simp only: tw)
  then have "configured s 6" by (rule set_takeWhileD [THEN conjunct2])
  then show False using configured_le5 [of s 6] by simp
qed

lemma run_step_history:
  assumes "extract_input_text e st0 fr = Inr inp" and "py_strip inp \<noteq> []"
    and "models_readable s"
    and "i < completed_steps s"
  shows "history_of (em_heap (emissions e s st0 fr ! i)) (em_frame (emissions e s st0 fr ! i))
           = map rec_val (take (Suc i) (records_of e s inp))"
proof -
  obtain d0 where em: "emissions e s st0 fr ! i = step_emission st0 d0 fr (records_of e s inp) i"
    using run_step_emission [OF assms] by blast
  have "i < length (take (Suc i) (records_of e s inp))"
    using assms(3,4) by (simp add: length_records_of)
  then have "history_of (heap_after st0 d0 (take (Suc i) (records_of e s inp)) @ [])
               (fr\<lparr>other_data := length st0 + 1 + i\<rparr>)
             = map rec_val (take (Suc i) (records_of e s inp))"
    by (rule history_step_frame)
  then show ?thesis by (simp add: em step_emission_def)
qed

lemma run_frame_address:
  assumes "extract_input_text e st0 fr = Inr inp" and "py_strip inp \<noteq> []"
    and "models_readable s"
    and "j < length (emissions e s st0 fr)"
  shows "other_data (em_frame (emissions e s st0 fr ! j)) = length st0 + 1 + j"
proof (cases "j < completed_steps s")
  case True
  obtain d0 where "emissions e s st0 fr ! j = step_emission st0 d0 fr (records_of e s inp) j"
    using run_step_emission [OF assms(1,2,3) True] by blast
  then show ?thesis by (simp add: step_emission_def)
next
  case False
  with assms(4) have j: "j = completed_steps s"
    by (simp add: length_emissions [OF assms(1,2,3)])
  obtain d0 where "last (emissions e s st0 fr) =
             final_emission st0 d0 fr (records_of e s inp) inp (num_steps s)"
    using run_last_emission [OF assms(1,2,3)] by blast
  then show ?thesis
    using run_final_emission(1) [OF assms(1,2,3)] j assms(3)
    by (simp add: final_emission_def length_records_of)
qed

lemma run_source_unchanged:
  assumes "extract_input_text e st0 fr = Inr inp" and "py_strip inp \<noteq> []"
    and "models_readable s"
    and "j < length (emissions e s st0 fr)"
  shows "other_data_of (em_heap (emissions e s st0 fr ! j)) fr = other_data_of st0 fr"
proof -
  obtain d0 where d0: "lookup st0 (other_data fr) = Some (ODict d0)"
    using valid_input_frame [OF assms(1,2)] by blast
  have a: "other_data_of (heap_after st0 d0 rs @ X) fr = d0" for rs X
    using other_data_of_append [OF d0, of "OList (map rec_val rs) # map (rec_dict d0 (length st0)) rs @ X"]
    by (simp add: heap_after_def)
  show ?thesis
  proof (cases "j < completed_steps s")
    case True
    obtain d1 where l: "lookup st0 (other_data fr) = Some (ODict d1)"
      and em: "emissions e s st0 fr ! j = step_emission st0 d1 fr (records_of e s inp) j"
      using run_step_emission [OF assms(1,2,3) True] by blast
    from l d0 have "d1 = d0" by simp
    then show ?thesis
      using a [of "take (Suc j) (records_of e s inp)" "[]"] em
      by (simp add: step_emission_def other_data_of_lookup [OF d0])
  next
    case False
    with assms(4) have j: "j = completed_steps s"
      by (simp add: length_emissions [OF assms(1,2,3)])
    obtain d1 where l: "lookup st0 (other_data fr) = Some (ODict d1)"
      and es: "end_store e s st0 fr = final_heap st0 d1 (records_of e s inp) inp (num_steps s)"
      using run_last_emission [OF assms(1,2,3)] by blast
    from l d0 have "d1 = d0" by simp
    then have "other_data_of (end_store e s st0 fr) fr = d0"
      using a [of "records_of e s inp"] es by (simp add: final_heap_def)
    then show ?thesis
      using run_final_emission(1,3) [OF assms(1,2,3)] j
      by (simp add: other_data_of_lookup [OF d0])
  qed
qed

lemma records_take_steps:
  assumes "models_readable s" and "i < completed_steps s"
  shows "map (\<lambda>r. record_field r ''step'') (map rec_val (take (Suc i) (records_of e s inp)))
           = map (\<lambda>n. Some (PInt (int n))) [1..<Suc (Suc i)]"
proof -
  have "map sr_step (take (Suc i) (records_of e s inp))
          = take (Suc i) (map sr_step (records_of e s inp))"
    by (simp add: take_map)
  also have "\<dots> = take (Suc i) [1..<Suc (completed_steps s)]"
    by (simp only: records_of_steps [OF assms(1)])
  also have "\<dots> = [1..<1 + Suc i]"
    using assms(2) by (intro take_upt) simp
  finally have st: "map sr_step (take (Suc i) (records_of e s inp)) = [1..<Suc (Suc i)]" by simp
  have "map (\<lambda>r. record_field r ''step'') (map rec_val (take (Suc i) (records_of e s inp)))
          = map (\<lambda>n. Some (PInt (int n))) (map sr_step (take (Suc i) (records_of e s inp)))"
    by (simp add: record_field_step)
  then show ?thesis by (simp only: st)
qed

lemma ex_completed: "(0::nat) < completed_steps ex_settings"
  by code_simp

lemma shared_input: "extract_input_text ex_env shared_store ex_frame = Inr ''Hello''"
  by code_simp

lemma run_step_history_later:
  assumes "extract_input_text e st0 fr = Inr inp" and "py_strip inp \<noteq> []"
    and "models_readable s"
    and "i \<le> j" and "j < completed_steps s"
  shows "history_of (em_heap (emissions e s st0 fr ! j)) (em_frame (emissions e s st0 fr ! i))
           = map rec_val (take (Suc j) (records_of e s inp))"
proof -
  have i: "i < completed_steps s" using assms(4,5) by simp
  obtain d0 where d0: "lookup st0 (other_data fr) = Some (ODict d0)"
    and ei: "emissions e s st0 fr ! i = step_emission st0 d0 fr (records_of e s inp) i"
    using run_step_emission [OF assms(1,2,3) i] by blast
  obtain d1 where d1: "lookup st0 (other_data fr) = Some (ODict d1)"
    and ej: "emissions e s st0 fr ! j = step_emission st0 d1 fr (records_of e s inp) j"
    using run_step_emission [OF assms(1,2,3,5)] by blast
  from d0 d1 have dd: "d1 = d0" by simp
  have "i < length (take (Suc j) (records_of e s inp))"
    using assms(3,4,5) by (simp add: length_records_of)
  then have "history_of (heap_after st0 d0 (take (Suc j) (records_of e s inp)) @ [])
               (fr\<lparr>other_data := length st0 + 1 + i\<rparr>)
             = map rec_val (take (Suc j) (records_of e s inp))"
    by (rule history_step_frame)
  then show ?thesis by (simp add: ei ej dd step_emission_def)
qed

lemma ex_completed_2: "completed_steps ex_settings = 2"
  by code_simp

lemma shared_tags: "field shared_store ex_frame ''tags'' = Some (PRef 1)"
  by code_simp

subsection \<open>Runs that raise in the loop\<close>

text \<open>
  When the model of a step that the loop reaches cannot be read, the run raises after
  the frames of the earlier steps and emits no terminal frame. With the model \<open>gpt\<close> at
  step 2, the frame of step 1 is the only one.
\<close>

lemma unreadable_model_raises:
  assumes "extract_input_text e st0 fr = Inr inp" and "py_strip inp \<noteq> []"
    and "\<not> models_readable s"
  shows "raised e s st0 fr \<noteq> None \<and> ''final'' \<notin> set (map em_channel (emissions e s st0 fr))"
proof -
  obtain d0 ex where em: "emissions e s st0 fr = emissions_after st0 d0 fr (records_of e s inp)"
    and r: "raised e s st0 fr = Some ex"
    using run_facts_raise [OF assms] by blast
  have "''final'' \<notin> set (map (\<lambda>r. ''step'' @ str_nat (sr_step r)) (records_of e s inp))"
    by auto
  then show ?thesis by (simp only: em r channels_emissions_after) simp
qed

lemma ex_unreadable_run:
  "\<not> models_readable ex_settings_f \<and>
   raised ex_env ex_settings_f ex_store ex_frame = Some (ValueError ''gpt'') \<and>
   map em_channel (emissions ex_env ex_settings_f ex_store ex_frame) = [''step1'']"
proof -
  have nr: "\<not> models_readable ex_settings_f" by code_simp
  have cr: "chain_raise ex_settings_f (py_range 1 (num_steps ex_settings_f + 1)) = Some (ValueError ''gpt'')"
    by code_simp
  have st: "map sr_step (records_of ex_env ex_settings_f ''Hello'') = [1]" by code_simp
  obtain d0 ex where em: "emissions ex_env ex_settings_f ex_store ex_frame
        = emissions_after ex_store d0 ex_frame (records_of ex_env ex_settings_f ''Hello'')"
    and r: "raised ex_env ex_settings_f ex_store ex_frame = Some ex"
    and c: "chain_raise ex_settings_f (py_range 1 (num_steps ex_settings_f + 1)) = Some ex"
    using run_facts_raise [OF ex_input ex_input_not_blank nr] by blast
  have "map em_channel (emissions ex_env ex_settings_f ex_store ex_frame)
          = map (\<lambda>n. ''step'' @ str_nat n) (map sr_step (records_of ex_env ex_settings_f ''Hello''))"
    by (simp add: em channels_emissions_after)
  then have "map em_channel (emissions ex_env ex_settings_f ex_store ex_frame) = [''step1'']"
    by (simp only: st) (simp add: str_nat_lit)
  with nr r c cr show ?thesis by simp
qed

section \<open>The claims\<close>

text \<open>
  Claim C1, as amended. In a run on valid input in which every model setting read by
  the loop has one of its valid values, when the frame of step \<open>i\<close> is emitted, its
  \<open>chain_history\<close> holds exactly \<open>i\<close> records, those of the steps 1 to \<open>i\<close> in order. Its side-channel mapping is
  a new object, different from the input frame's mapping and from the mapping of every
  other emitted frame, and the input frame's mapping is never modified. The history is
  never truncated or reordered: what a frame shows at its emission is a prefix of what
  every later frame shows at its own emission. The claim as stated fails: every frame
  refers to the one list \<open>step_outputs\<close>, so that the history read through the frame of
  step 1 has two records once step 2 has appended its own; and the values of the input's
  mapping are copied by reference, so that a mutable value is shared with the input
  frame.
\<close>

theorem step_frame_history_at_emission:
  assumes "extract_input_text e st0 fr = Inr inp" and "py_strip inp \<noteq> []"
    and "models_readable s"
    and "i < completed_steps s"
  shows "em_channel (emissions e s st0 fr ! i) = ''step'' @ str_nat (Suc i) \<and>
         length (history_of (em_heap (emissions e s st0 fr ! i))
                   (em_frame (emissions e s st0 fr ! i))) = Suc i \<and>
         map (\<lambda>r. record_field r ''step'')
             (history_of (em_heap (emissions e s st0 fr ! i)) (em_frame (emissions e s st0 fr ! i)))
           = map (\<lambda>n. Some (PInt (int n))) [1..<Suc (Suc i)] \<and>
         lookup st0 (other_data (em_frame (emissions e s st0 fr ! i))) = None \<and>
         other_data (em_frame (emissions e s st0 fr ! i)) \<noteq> other_data fr \<and>
         (\<forall>j. j < length (emissions e s st0 fr) \<and> j \<noteq> i \<longrightarrow>
              other_data (em_frame (emissions e s st0 fr ! j))
                \<noteq> other_data (em_frame (emissions e s st0 fr ! i))) \<and>
         (\<forall>j. j < length (emissions e s st0 fr) \<longrightarrow>
              other_data_of (em_heap (emissions e s st0 fr ! j)) fr = other_data_of st0 fr) \<and>
         (\<forall>j. i \<le> j \<and> j < completed_steps s \<longrightarrow>
              prefix (history_of (em_heap (emissions e s st0 fr ! i))
                        (em_frame (emissions e s st0 fr ! i)))
                     (history_of (em_heap (emissions e s st0 fr ! j))
                        (em_frame (emissions e s st0 fr ! j)))) \<and>
         prefix (history_of (em_heap (emissions e s st0 fr ! i))
                   (em_frame (emissions e s st0 fr ! i)))
                (history_of (end_store e s st0 fr) (em_frame (last (emissions e s st0 fr))))"
proof -
  have il: "i < length (emissions e s st0 fr)"
    using assms(4) by (simp add: length_emissions [OF assms(1,2,3)])
  have h: "history_of (em_heap (emissions e s st0 fr ! i)) (em_frame (emissions e s st0 fr ! i))
           = map rec_val (take (Suc i) (records_of e s inp))"
    by (rule run_step_history [OF assms])
  have 1: "em_channel (emissions e s st0 fr ! i) = ''step'' @ str_nat (Suc i)"
    by (rule run_step_channel [OF assms])
  have 2: "length (history_of (em_heap (emissions e s st0 fr ! i))
                   (em_frame (emissions e s st0 fr ! i))) = Suc i"
    using assms(3,4) by (simp add: h length_records_of)
  have 3: "map (\<lambda>r. record_field r ''step'')
             (history_of (em_heap (emissions e s st0 fr ! i)) (em_frame (emissions e s st0 fr ! i)))
           = map (\<lambda>n. Some (PInt (int n))) [1..<Suc (Suc i)]"
    unfolding h by (rule records_take_steps [OF assms(3,4)])
  have ad: "other_data (em_frame (emissions e s st0 fr ! i)) = length st0 + 1 + i"
    by (rule run_frame_address [OF assms(1,2,3) il])
  obtain d0 where "lookup st0 (other_data fr) = Some (ODict d0)"
    using valid_input_frame [OF assms(1,2)] by blast
  then have lt: "other_data fr < length st0" by (rule lookup_Some_less)
  have 4: "lookup st0 (other_data (em_frame (emissions e s st0 fr ! i))) = None"
    by (simp add: ad lookup_def)
  have 5: "other_data (em_frame (emissions e s st0 fr ! i)) \<noteq> other_data fr"
    using lt by (simp add: ad)
  have 6: "\<forall>j. j < length (emissions e s st0 fr) \<and> j \<noteq> i \<longrightarrow>
              other_data (em_frame (emissions e s st0 fr ! j))
                \<noteq> other_data (em_frame (emissions e s st0 fr ! i))"
    using run_frame_address [OF assms(1,2,3)] by (simp add: ad)
  have 7: "\<forall>j. j < length (emissions e s st0 fr) \<longrightarrow>
              other_data_of (em_heap (emissions e s st0 fr ! j)) fr = other_data_of st0 fr"
    using run_source_unchanged [OF assms(1,2,3)] by blast
  have 8: "\<forall>j. i \<le> j \<and> j < completed_steps s \<longrightarrow>
              prefix (history_of (em_heap (emissions e s st0 fr ! i))
                        (em_frame (emissions e s st0 fr ! i)))
                     (history_of (em_heap (emissions e s st0 fr ! j))
                        (em_frame (emissions e s st0 fr ! j)))"
  proof (intro allI impI)
    fix j
    assume j: "i \<le> j \<and> j < completed_steps s"
    then have hj: "history_of (em_heap (emissions e s st0 fr ! j))
                     (em_frame (emissions e s st0 fr ! j))
                   = map rec_val (take (Suc j) (records_of e s inp))"
      using run_step_history [OF assms(1,2,3), of j] by simp
    have "take (Suc i) (records_of e s inp) = take (Suc i) (take (Suc j) (records_of e s inp))"
      using j by (simp add: min_def)
    then have "prefix (take (Suc i) (records_of e s inp)) (take (Suc j) (records_of e s inp))"
      by (metis take_is_prefix)
    then show "prefix (history_of (em_heap (emissions e s st0 fr ! i))
                        (em_frame (emissions e s st0 fr ! i)))
                     (history_of (em_heap (emissions e s st0 fr ! j))
                        (em_frame (emissions e s st0 fr ! j)))"
      unfolding h hj by (rule map_mono_prefix)
  qed
  have 9: "prefix (history_of (em_heap (emissions e s st0 fr ! i))
                   (em_frame (emissions e s st0 fr ! i)))
                (history_of (end_store e s st0 fr) (em_frame (last (emissions e s st0 fr))))"
    unfolding h run_final_history [OF assms(1,2,3)]
    by (intro map_mono_prefix take_is_prefix)
  show ?thesis using 1 2 3 4 5 6 7 8 9 by blast
qed

theorem step_frame_history_at_emission_witness:
  "extract_input_text ex_env ex_store ex_frame = Inr ''Hello'' \<and> py_strip ''Hello'' \<noteq> [] \<and>
   models_readable ex_settings \<and> (0::nat) < completed_steps ex_settings \<and>
   em_channel (emissions ex_env ex_settings ex_store ex_frame ! 0) = ''step1'' \<and>
   length (history_of (em_heap (emissions ex_env ex_settings ex_store ex_frame ! 0))
             (em_frame (emissions ex_env ex_settings ex_store ex_frame ! 0))) = 1 \<and>
   other_data (em_frame (emissions ex_env ex_settings ex_store ex_frame ! 0))
     \<noteq> other_data ex_frame"
proof -
  note t = step_frame_history_at_emission [OF ex_input ex_input_not_blank ex_readable ex_completed]
  have "em_channel (emissions ex_env ex_settings ex_store ex_frame ! 0) = ''step'' @ str_nat (Suc 0)"
    using t by blast
  then have a: "em_channel (emissions ex_env ex_settings ex_store ex_frame ! 0) = ''step1''"
    by (simp add: str_nat_lit)
  have "length (history_of (em_heap (emissions ex_env ex_settings ex_store ex_frame ! 0))
             (em_frame (emissions ex_env ex_settings ex_store ex_frame ! 0))) = Suc 0"
    using t by blast
  then have b: "length (history_of (em_heap (emissions ex_env ex_settings ex_store ex_frame ! 0))
             (em_frame (emissions ex_env ex_settings ex_store ex_frame ! 0))) = 1" by simp
  have c: "other_data (em_frame (emissions ex_env ex_settings ex_store ex_frame ! 0))
     \<noteq> other_data ex_frame" using t by blast
  show ?thesis using ex_input ex_input_not_blank ex_readable ex_completed a b c by blast
qed

theorem step_frame_history_changes_later:
  "em_channel (emissions ex_env ex_settings ex_store ex_frame ! 0) = ''step1'' \<and>
   em_channel (emissions ex_env ex_settings ex_store ex_frame ! 1) = ''step2'' \<and>
   length (history_of (em_heap (emissions ex_env ex_settings ex_store ex_frame ! 0))
             (em_frame (emissions ex_env ex_settings ex_store ex_frame ! 0))) = 1 \<and>
   length (history_of (em_heap (emissions ex_env ex_settings ex_store ex_frame ! 1))
             (em_frame (emissions ex_env ex_settings ex_store ex_frame ! 0))) = 2 \<and>
   field shared_store ex_frame ''tags'' = Some (PRef 1) \<and>
   field (em_heap (emissions ex_env ex_settings shared_store ex_frame ! 0))
     (em_frame (emissions ex_env ex_settings shared_store ex_frame ! 0)) ''tags'' = Some (PRef 1)"
proof -
  have k0: "0 < completed_steps ex_settings" and k1: "1 < completed_steps ex_settings"
    by (simp_all add: ex_completed_2)
  have c0: "em_channel (emissions ex_env ex_settings ex_store ex_frame ! 0) = ''step1''"
    using run_step_channel [OF ex_input ex_input_not_blank ex_readable k0] by (simp add: str_nat_lit)
  have c1: "em_channel (emissions ex_env ex_settings ex_store ex_frame ! 1) = ''step2''"
    using run_step_channel [OF ex_input ex_input_not_blank ex_readable k1, unfolded Suc_1]
    by (simp add: str_nat_lit)
  have l0: "length (history_of (em_heap (emissions ex_env ex_settings ex_store ex_frame ! 0))
             (em_frame (emissions ex_env ex_settings ex_store ex_frame ! 0))) = 1"
    using run_step_history_later [OF ex_input ex_input_not_blank ex_readable le_refl k0]
    by (simp add: length_records_of ex_completed_2 ex_readable)
  have "(0::nat) \<le> 1" by simp
  then have l1: "length (history_of (em_heap (emissions ex_env ex_settings ex_store ex_frame ! 1))
             (em_frame (emissions ex_env ex_settings ex_store ex_frame ! 0))) = 2"
    using run_step_history_later [OF ex_input ex_input_not_blank ex_readable _ k1, of 0]
    by (simp add: length_records_of ex_completed_2 ex_readable)
  have cs: "em_channel (emissions ex_env ex_settings shared_store ex_frame ! 0) = ''step1''"
    using run_step_channel [OF shared_input ex_input_not_blank ex_readable k0] by (simp add: str_nat_lit)
  have "0 < length (emissions ex_env ex_settings shared_store ex_frame)"
    by (simp add: length_emissions [OF shared_input ex_input_not_blank ex_readable] ex_completed_2)
  then have mem: "emissions ex_env ex_settings shared_store ex_frame ! 0
                    \<in> set (emissions ex_env ex_settings shared_store ex_frame)"
    by (rule nth_mem)
  have "''tags'' \<notin> set (overlay_keys ''step1'')" by (simp add: overlay_keys_def)
  then have t: "field (em_heap (emissions ex_env ex_settings shared_store ex_frame ! 0))
     (em_frame (emissions ex_env ex_settings shared_store ex_frame ! 0)) ''tags''
       = field shared_store ex_frame ''tags''"
    using emitted_frame_fields [OF shared_input ex_input_not_blank mem] cs by metis
  show ?thesis using c0 c1 l0 l1 t shared_tags by simp
qed

text \<open>
  Claim C2. For an input frame that passes input validation, and settings in which the
  model of every step that the loop reaches can be read (\<open>models_readable\<close>), the executor
  returns normally and emits the step frames on the channels \<open>step1\<close>, ..., \<open>stepk\<close> in
  this order, followed by exactly one frame on \<open>final\<close>; \<open>k\<close> is at most \<open>num_steps\<close> and
  is the number of steps completed before \<open>num_steps\<close> is reached or a step is not
  configured, which is also the length of the history. This holds for every value of
  \<open>num_steps\<close>, in particular for 1 to 10.
\<close>

theorem chain_emits_steps_then_final:
  assumes "extract_input_text e st0 fr = Inr inp" and "py_strip inp \<noteq> []"
    and "models_readable s"
  shows "raised e s st0 fr = None \<and>
         completed_steps s \<le> nat (num_steps s) \<and>
         map em_channel (emissions e s st0 fr) =
           map (\<lambda>n. ''step'' @ str_nat n) [1..<Suc (completed_steps s)] @ [''final''] \<and>
         length (history_of (end_store e s st0 fr) (em_frame (last (emissions e s st0 fr))))
           = completed_steps s"
proof -
  have "raised e s st0 fr = None" using run_facts [OF assms] by blast
  moreover have "length (history_of (end_store e s st0 fr)
                   (em_frame (last (emissions e s st0 fr)))) = completed_steps s"
    using assms(3) by (simp add: run_final_history [OF assms] length_records_of)
  ultimately show ?thesis
    using run_channels [OF assms] completed_steps_le [of s] by simp
qed

theorem chain_emits_steps_then_final_witness:
  "extract_input_text ex_env ex_store ex_frame = Inr ''Hello'' \<and> py_strip ''Hello'' \<noteq> [] \<and>
   models_readable ex_settings \<and>
   raised ex_env ex_settings ex_store ex_frame = None \<and>
   map em_channel (emissions ex_env ex_settings ex_store ex_frame) = [''step1'', ''step2'', ''final'']"
proof -
  have k: "completed_steps ex_settings = 2" by code_simp
  show ?thesis
    using chain_emits_steps_then_final [OF ex_input ex_input_not_blank ex_readable]
      ex_input ex_input_not_blank ex_readable
    by (simp add: k upt_steps str_nat_lit)
qed

text \<open>
  Claim C3 fails on the code: the class \<open>Settings\<close> declares prompts for the steps 1 to 5
  only (and keys and temperatures for 1 to 3), so that \<open>step6_prompt\<close> is absent from every
  settings object and no chain completes more than five steps. With \<open>num_steps = 6\<close> and
  every declared prompt non-empty, the executor emits the frames of the steps 1 to 5 and
  the terminal frame, not six step frames.
\<close>

theorem chain_stops_after_step5:
  "getattr_text s ''step6_prompt'' = None \<and> prompt_template s 6 = None \<and>
   completed_steps s \<le> 5 \<and>
   num_steps six_settings = 6 \<and>
   configured six_settings 1 \<and> configured six_settings 2 \<and> configured six_settings 3 \<and>
   configured six_settings 4 \<and> configured six_settings 5 \<and>
   map em_channel (emissions ex_env six_settings ex_store ex_frame)
     = [''step1'', ''step2'', ''step3'', ''step4'', ''step5'', ''final'']"
proof -
  have c: "configured six_settings 1" "configured six_settings 2" "configured six_settings 3"
    "configured six_settings 4" "configured six_settings 5" "num_steps six_settings = 6"
    by code_simp+
  have k: "completed_steps six_settings = 5" by code_simp
  have "map em_channel (emissions ex_env six_settings ex_store ex_frame)
     = [''step1'', ''step2'', ''step3'', ''step4'', ''step5'', ''final'']"
    using run_channels [OF ex_input ex_input_not_blank six_readable]
    by (simp add: k upt_steps str_nat_lit)
  then show ?thesis
    using c completed_steps_le5 [of s]
    by (simp add: absent_settings prompt_template_eq)
qed

text \<open>
  Claim C4. If the prompt of step \<open>i\<close> is absent, \<open>None\<close> or empty while the steps before
  it are configured, with models that can be read, and \<open>num_steps\<close> is at least \<open>i\<close>, the
  chain halts at step \<open>i\<close>: the
  frames emitted are those of the steps \<open>1\<close> to \<open>i - 1\<close> and then one terminal frame, whose
  \<open>chain_steps\<close> is the configured \<open>num_steps\<close> and whose \<open>chain_history\<close> holds exactly the
  records of the steps \<open>1\<close> to \<open>i - 1\<close>.
\<close>

theorem chain_halts_at_unconfigured_step:
  assumes "extract_input_text e st0 fr = Inr inp" and "py_strip inp \<noteq> []"
    and "models_readable s"
    and "1 \<le> i" and "int i \<le> num_steps s"
    and "\<forall>j. 1 \<le> j \<and> j < i \<longrightarrow> configured s j"
    and "prompt_template s i = None \<or> prompt_template s i = Some None \<or>
         prompt_template s i = Some (Some [])"
  shows "raised e s st0 fr = None \<and>
         map em_channel (emissions e s st0 fr) =
           map (\<lambda>n. ''step'' @ str_nat n) [1..<i] @ [''final''] \<and>
         field (end_store e s st0 fr) (em_frame (last (emissions e s st0 fr))) ''chain_steps''
           = Some (PInt (num_steps s)) \<and>
         map (\<lambda>r. record_field r ''step'')
             (history_of (end_store e s st0 fr) (em_frame (last (emissions e s st0 fr))))
           = map (\<lambda>n. Some (PInt (int n))) [1..<i]"
proof -
  have nc: "\<not> configured s i" using assms(7) by (auto simp: configured_def)
  have k: "completed_steps s = i - 1" using assms(4,5,6) nc by (rule completed_steps_halt)
  then have sk: "Suc (completed_steps s) = i" using assms(4) by simp
  have "raised e s st0 fr = None" using run_facts [OF assms(1,2,3)] by blast
  moreover have "map em_channel (emissions e s st0 fr) =
           map (\<lambda>n. ''step'' @ str_nat n) [1..<i] @ [''final'']"
    using run_channels [OF assms(1,2,3)] by (simp only: sk)
  moreover have "field (end_store e s st0 fr) (em_frame (last (emissions e s st0 fr)))
                   ''chain_steps'' = Some (PInt (num_steps s))"
    by (simp add: run_final_field [OF assms(1,2,3)] map_of_final_dict)
  moreover have "map (\<lambda>r. record_field r ''step'')
             (history_of (end_store e s st0 fr) (em_frame (last (emissions e s st0 fr))))
           = map (\<lambda>n. Some (PInt (int n))) [1..<i]"
    using history_steps [OF assms(3), of e inp] by (simp only: run_final_history [OF assms(1,2,3)] sk)
  ultimately show ?thesis by blast
qed

theorem chain_halts_at_unconfigured_step_witness:
  "extract_input_text ex_env ex_store ex_frame = Inr ''Hello'' \<and> py_strip ''Hello'' \<noteq> [] \<and>
   models_readable ex_settings_b \<and>
   (1::nat) \<le> 2 \<and> int 2 \<le> num_steps ex_settings_b \<and>
   configured ex_settings_b 1 \<and>
   prompt_template ex_settings_b 2 = Some (Some []) \<and>
   map em_channel (emissions ex_env ex_settings_b ex_store ex_frame) = [''step1'', ''final''] \<and>
   field (end_store ex_env ex_settings_b ex_store ex_frame)
     (em_frame (last (emissions ex_env ex_settings_b ex_store ex_frame))) ''chain_steps''
     = Some (PInt 3) \<and>
   map (\<lambda>r. record_field r ''step'')
     (history_of (end_store ex_env ex_settings_b ex_store ex_frame)
        (em_frame (last (emissions ex_env ex_settings_b ex_store ex_frame))))
     = [Some (PInt 1)]"
proof -
  have h3: "(1::nat) \<le> 2" by simp
  have h4: "int 2 \<le> num_steps ex_settings_b" by (simp add: ex_settings_b_def)
  have c1: "configured ex_settings_b 1" by code_simp
  have h5: "\<forall>j. 1 \<le> j \<and> j < 2 \<longrightarrow> configured ex_settings_b j"
  proof (intro allI impI)
    fix j :: nat
    assume "1 \<le> j \<and> j < 2"
    then have "j = 1" by simp
    with c1 show "configured ex_settings_b j" by simp
  qed
  have p2: "prompt_template ex_settings_b 2 = Some (Some [])" by code_simp
  then have h6: "prompt_template ex_settings_b 2 = None \<or> prompt_template ex_settings_b 2 = Some None \<or>
         prompt_template ex_settings_b 2 = Some (Some [])" by simp
  have n: "num_steps ex_settings_b = 3" by (simp add: ex_settings_b_def)
  show ?thesis
    using chain_halts_at_unconfigured_step [OF ex_input ex_input_not_blank ex_readable_b h3 h4 h5 h6]
      ex_input ex_input_not_blank ex_readable_b h4 c1 p2
    by (simp add: n upt_steps str_nat_lit)
qed

text \<open>
  Claim C5. \<open>format_prompt\<close> replaces every occurrence of \<open>{input}\<close> in the template by
  the input text, and then every occurrence of \<open>{previous}\<close> in the resulting text by the
  previous output when there is a non-empty one, and by the input text when the previous
  output is \<open>None\<close> or empty. The template is cut at its occurrences of \<open>{input}\<close> into the
  pieces \<open>us\<close>, and the text with the input filled in is cut at its occurrences of
  \<open>{previous}\<close> into the pieces \<open>vs\<close>; every string has such pieces
  (\<open>segmentation_exists\<close>).
\<close>

theorem format_prompt_replaces_every_occurrence:
  assumes "segmentation ''{input}'' us"
    and "segmentation ''{previous}'' vs"
    and "py_join ''{previous}'' vs = py_join input_text us"
  shows "format_prompt (py_join ''{input}'' us) input_text prev =
           py_join (case prev of None \<Rightarrow> input_text
                    | Some p \<Rightarrow> if p = [] then input_text else p) vs"
proof -
  have 1: "py_replace (py_join ''{input}'' us) ''{input}'' input_text = py_join ''{previous}'' vs"
    using assms(1,3) by (simp add: py_replace_segments)
  have 2: "py_replace (py_join ''{previous}'' vs) ''{previous}'' w = py_join w vs" for w
    using assms(2) by (simp add: py_replace_segments)
  show ?thesis
    by (simp add: format_prompt_def 1 2 split: option.splits)
qed

theorem format_prompt_replaces_every_occurrence_witness:
  "segmentation ''{input}'' [''Say '', '' and {previous}, '', '' again {previous}''] \<and>
   segmentation ''{previous}'' [''Say Hello and '', '', Hello again '', []] \<and>
   py_join ''{previous}'' [''Say Hello and '', '', Hello again '', []]
     = py_join ''Hello'' [''Say '', '' and {previous}, '', '' again {previous}''] \<and>
   format_prompt ''Say {input} and {previous}, {input} again {previous}'' ''Hello'' None
     = ''Say Hello and Hello, Hello again Hello''"
proof -
  have h1: "segmentation ''{input}'' [''Say '', '' and {previous}, '', '' again {previous}'']"
    by code_simp
  have h2: "segmentation ''{previous}'' [''Say Hello and '', '', Hello again '', []]"
    by code_simp
  have h3: "py_join ''{previous}'' [''Say Hello and '', '', Hello again '', []]
     = py_join ''Hello'' [''Say '', '' and {previous}, '', '' again {previous}'']"
    by simp
  show ?thesis
    using format_prompt_replaces_every_occurrence [OF h1 h2 h3, of None] h1 h2 h3 by simp
qed

text \<open>
  Claim C6. \<open>call_llm\<close> never raises: it returns a result for every model, and the empty
  string when the provider call raises (\<open>ImportError\<close> or any other exception). For a model
  other than \<open>local\<close>, an empty result makes the step's output the marker
  \<open>[Step n - no output]\<close>. For valid input and models that can be read, the executor
  returns normally, the number of frames is that of the configured steps plus one
  whatever the providers do, no recorded
  output is the empty string, and the record of a step whose provider call gave nothing
  holds the marker.
\<close>

theorem provider_failure_becomes_no_output_marker:
  assumes "extract_input_text e st0 fr = Inr inp" and "py_strip inp \<noteq> []"
    and "models_readable s"
  shows "(\<exists>r. call_llm e prompt mv ak tp n = Inr r) \<and>
         (openai_create e n prompt ak tp = Inl ex \<longrightarrow>
            call_llm e prompt (Some ''openai'') ak tp n = Inr []) \<and>
         (anthropic_create e n prompt ak tp = Inl ex \<longrightarrow>
            call_llm e prompt (Some ''anthropic'') ak tp n = Inr []) \<and>
         (mv \<noteq> Some ''local'' \<and> call_llm e prompt mv ak tp n = Inr [] \<longrightarrow>
            step_output e n prompt mv ak tp = Inr (''[Step '' @ str_nat n @ '' - no output]'')) \<and>
         raised e s st0 fr = None \<and>
         length (emissions e s st0 fr) = Suc (completed_steps s) \<and>
         (\<forall>r \<in> set (history_of (end_store e s st0 fr) (em_frame (last (emissions e s st0 fr)))).
            \<exists>out. record_field r ''output'' = Some (PStr out) \<and> out \<noteq> []) \<and>
         (j < completed_steps s \<and> model_value s (Suc j) = Inr m \<and> m \<noteq> Some ''local'' \<and>
          (\<forall>p. call_llm e p m (api_key s (Suc j)) (temperature s (Suc j)) (Suc j) = Inr [])
            \<longrightarrow>
            record_field
              (history_of (end_store e s st0 fr) (em_frame (last (emissions e s st0 fr))) ! j)
              ''output'' = Some (PStr (''[Step '' @ str_nat (Suc j) @ '' - no output]'')))"
proof -
  have 1: "\<exists>r. call_llm e prompt mv ak tp n = Inr r" by (rule call_llm_returns)
  have 5: "raised e s st0 fr = None" using run_facts [OF assms] by blast
  have 6: "length (emissions e s st0 fr) = Suc (completed_steps s)"
    by (rule length_emissions [OF assms])
  have 7: "\<forall>r \<in> set (history_of (end_store e s st0 fr) (em_frame (last (emissions e s st0 fr)))).
            \<exists>out. record_field r ''output'' = Some (PStr out) \<and> out \<noteq> []"
  proof
    fix r
    assume "r \<in> set (history_of (end_store e s st0 fr) (em_frame (last (emissions e s st0 fr))))"
    then obtain x where x: "x \<in> set (records_of e s inp)" and r: "r = rec_val x"
      by (auto simp: run_final_history [OF assms])
    from x have "sr_output x \<noteq> []"
      unfolding records_of_def by (rule chain_records_output_not_empty)
    with r show "\<exists>out. record_field r ''output'' = Some (PStr out) \<and> out \<noteq> []"
      by (simp add: record_field_output)
  qed
  have 8: "record_field
              (history_of (end_store e s st0 fr) (em_frame (last (emissions e s st0 fr))) ! j)
              ''output'' = Some (PStr (''[Step '' @ str_nat (Suc j) @ '' - no output]''))"
    if a: "j < completed_steps s" "model_value s (Suc j) = Inr m" "m \<noteq> Some ''local''"
      "\<forall>p. call_llm e p m (api_key s (Suc j)) (temperature s (Suc j)) (Suc j) = Inr []"
  proof -
    define p where "p = sr_prompt (records_of e s inp ! j)"
    have sm: "sr_model (records_of e s inp ! j) = m"
      using records_of_sound(1) [OF assms(3) a(1), of e inp] a(2) by simp
    have "step_output e (Suc j) p m (api_key s (Suc j)) (temperature s (Suc j))
            = Inr (''[Step '' @ str_nat (Suc j) @ '' - no output]'')"
      using a(3,4) by (simp add: step_output_no_output)
    then have "the_output e (Suc j) p m (api_key s (Suc j)) (temperature s (Suc j))
            = ''[Step '' @ str_nat (Suc j) @ '' - no output]''"
      by (simp add: the_output_def)
    then have "sr_output (records_of e s inp ! j) = ''[Step '' @ str_nat (Suc j) @ '' - no output]''"
      using records_of_sound(2) [OF assms(3) a(1), of e inp] by (simp add: p_def sm)
    then show ?thesis
      by (simp add: run_history_nth [OF assms a(1)] record_field_output)
  qed
  show ?thesis
    using 1 5 6 7 8 call_llm_provider_raises [of e n prompt ak tp ex]
      step_output_no_output [of mv e prompt ak tp n]
    by blast
qed

theorem provider_failure_becomes_no_output_marker_witness:
  "extract_input_text ex_env ex_store ex_frame = Inr ''Hello'' \<and> py_strip ''Hello'' \<noteq> [] \<and>
   models_readable ex_settings_d \<and> (1::nat) < completed_steps ex_settings_d \<and>
   model_value ex_settings_d 2 = Inr (Some ''openai'') \<and> Some ''openai'' \<noteq> Some ''local'' \<and>
   (\<forall>p. call_llm ex_env p (Some ''openai'') (api_key ex_settings_d 2)
          (temperature ex_settings_d 2) 2 = Inr []) \<and>
   length (emissions ex_env ex_settings_d ex_store ex_frame) = 4 \<and>
   record_field
     (history_of (end_store ex_env ex_settings_d ex_store ex_frame)
        (em_frame (last (emissions ex_env ex_settings_d ex_store ex_frame))) ! 1)
     ''output'' = Some (PStr ''[Step 2 - no output]'')"
proof -
  have h1: "(1::nat) < completed_steps ex_settings_d" by (simp add: ex_settings_d_facts)
  have h0: "models_readable ex_settings_d" by (rule ex_settings_d_facts(3))
  have h2: "model_value ex_settings_d 2 = Inr (Some ''openai'')"
    by (rule ex_settings_d_facts(2))
  have h2': "Some ''openai'' \<noteq> Some ''local''" by simp
  have h3: "\<forall>p. call_llm ex_env p (Some ''openai'')
          (api_key ex_settings_d 2) (temperature ex_settings_d 2) 2 = Inr []"
    by (simp add: call_llm_def openai_body_def ex_env_def)
  note t = provider_failure_becomes_no_output_marker [OF ex_input ex_input_not_blank h0,
             where j = 1 and m = "Some ''openai''", unfolded Suc_1]
  have s2: "''[Step '' @ str_nat 2 @ '' - no output]'' = ''[Step 2 - no output]''"
    by (simp add: str_nat_lit)
  have "length (emissions ex_env ex_settings_d ex_store ex_frame) = Suc (completed_steps ex_settings_d)"
    using t by blast
  then have l: "length (emissions ex_env ex_settings_d ex_store ex_frame) = 4"
    by (simp add: ex_settings_d_facts)
  have "record_field
     (history_of (end_store ex_env ex_settings_d ex_store ex_frame)
        (em_frame (last (emissions ex_env ex_settings_d ex_store ex_frame))) ! 1)
     ''output'' = Some (PStr (''[Step '' @ str_nat 2 @ '' - no output]''))"
    using t h1 h2 h2' h3 by blast
  then have "record_field
     (history_of (end_store ex_env ex_settings_d ex_store ex_frame)
        (em_frame (last (emissions ex_env ex_settings_d ex_store ex_frame))) ! 1)
     ''output'' = Some (PStr ''[Step 2 - no output]'')"
    by (simp only: s2)
  with l show ?thesis
    using ex_input ex_input_not_blank h0 h1 h2 h2' h3 by blast
qed

text \<open>
  Claim C7. When the input frame is \<open>None\<close>, the executor raises and emits no frame. When
  the text extracted from the side-channel data is empty after trimming, it raises
  \<open>ValueError\<close> and emits no frame, and so it does when the extraction itself raises. The
  text is the \<open>message\<close> field when there is one; otherwise the texts of the user messages
  of the \<open>api\<close> list (a string content, or the text parts of a list content), each followed
  by a space; otherwise it is empty.
\<close>

theorem invalid_input_raises_without_frames:
  "fst (main e s st0 None) = [] \<and> snd (snd (main e s st0 None)) = Some (PyException ''Unexpected None frame input.'') \<and>
   (extract_input_text e st0 fr = Inr inp \<and> py_strip inp = [] \<longrightarrow>
      emissions e s st0 fr = [] \<and>
      raised e s st0 fr = Some (ValueError ''No input text provided for chain'')) \<and>
   (extract_input_text e st0 fr = Inl ex \<longrightarrow>
      emissions e s st0 fr = [] \<and> raised e s st0 fr = Some ex) \<and>
   (field st0 fr ''message'' = Some (PStr m) \<longrightarrow> extract_input_text e st0 fr = Inr m) \<and>
   (field st0 fr ''message'' = None \<and> field st0 fr ''api'' = Some (PList (map user_message cs))
      \<longrightarrow> extract_input_text e st0 fr = Inr (concat (map content_text cs))) \<and>
   (field st0 fr ''message'' = None \<and> field st0 fr ''api'' = None
      \<longrightarrow> extract_input_text e st0 fr = Inr [])"
  by (simp add: main_def emissions_def raised_def field_def extract_input_text_def py_str_def
        deref_def api_messages_text_user)

theorem invalid_input_raises_without_frames_witness:
  "field blank_store ex_frame ''message'' = None \<and>
   field blank_store ex_frame ''api''
     = Some (PList (map user_message [Parts [''  '', []], Str '' ''])) \<and>
   extract_input_text ex_env blank_store ex_frame = Inr ''      '' \<and>
   py_strip ''      '' = [] \<and>
   emissions ex_env ex_settings blank_store ex_frame = [] \<and>
   raised ex_env ex_settings blank_store ex_frame
     = Some (ValueError ''No input text provided for chain'')"
proof -
  have h1: "field blank_store ex_frame ''message'' = None" by code_simp
  have h2: "field blank_store ex_frame ''api''
     = Some (PList (map user_message [Parts [''  '', []], Str '' '']))" by code_simp
  have h3: "py_strip ''      '' = []" by code_simp
  show ?thesis
    using invalid_input_raises_without_frames
            [of ex_env ex_settings blank_store ex_frame "''      ''" _ _
               "[Parts [''  '', []], Str '' '']"]
      h1 h2 h3
    by simp
qed

text \<open>
  Claim C8. Whenever the run on a valid input returns normally, that is, emits a terminal
  frame, the \<open>chain_final_output\<close> of the terminal frame is the \<open>chain_output\<close> of the
  last step frame, or the extracted input text when no step completed. With
  \<open>num_steps = 1\<close> and step 1 configured with the model \<open>local\<close>, there is one step frame,
  and its \<open>chain_output\<close> and the terminal frame's \<open>chain_final_output\<close> are both the
  marker \<open>[Step 1 output - requires LLM element]\<close>.
\<close>

theorem final_output_is_last_step_output:
  assumes "extract_input_text e st0 fr = Inr inp" and "py_strip inp \<noteq> []"
    and "raised e s st0 fr = None"
  shows "field (end_store e s st0 fr) (em_frame (last (emissions e s st0 fr))) ''chain_final_output''
           = (if completed_steps s = 0 then Some (PStr inp)
              else field (end_store e s st0 fr)
                     (em_frame (emissions e s st0 fr ! (completed_steps s - 1))) ''chain_output'') \<and>
         (num_steps s = 1 \<and> configured s 1 \<and> model_value s 1 = Inr (Some ''local'') \<longrightarrow>
            map em_channel (emissions e s st0 fr) = [''step1'', ''final''] \<and>
            field (em_heap (emissions e s st0 fr ! 0)) (em_frame (emissions e s st0 fr ! 0))
              ''chain_output'' = Some (PStr ''[Step 1 output - requires LLM element]'') \<and>
            field (end_store e s st0 fr) (em_frame (last (emissions e s st0 fr)))
              ''chain_final_output'' = Some (PStr ''[Step 1 output - requires LLM element]''))"
proof -
  have mr: "models_readable s"
    using assms(3) by (simp add: raised_None_readable [OF assms(1,2)])
  note v = assms(1,2) mr
  define rs where "rs = records_of e s inp"
  define k where "k = completed_steps s"
  have len: "length rs = k" using mr by (simp add: rs_def k_def length_records_of)
  have fin: "field (end_store e s st0 fr) (em_frame (last (emissions e s st0 fr)))
               ''chain_final_output''
             = Some (PStr (case last_output rs None of None \<Rightarrow> inp
                           | Some p \<Rightarrow> if p \<noteq> [] then p else inp))"
    by (simp add: run_final_field [OF v] map_of_final_dict rs_def)
  have stepout: "field (end_store e s st0 fr) (em_frame (emissions e s st0 fr ! i)) ''chain_output''
                   = Some (PStr (sr_output (rs ! i)))"
    and stepout': "field (em_heap (emissions e s st0 fr ! i)) (em_frame (emissions e s st0 fr ! i))
                   ''chain_output'' = Some (PStr (sr_output (rs ! i)))"
    if "i < k" for i
    using that run_step_field [OF v, of i] by (simp_all add: k_def rs_def map_of_step_dict')
  have main: "field (end_store e s st0 fr) (em_frame (last (emissions e s st0 fr)))
                ''chain_final_output''
           = (if k = 0 then Some (PStr inp)
              else field (end_store e s st0 fr) (em_frame (emissions e s st0 fr ! (k - 1)))
                     ''chain_output'')"
  proof (cases "k = 0")
    case True
    then have "rs = []" using len by simp
    then show ?thesis using True fin by (simp add: last_output_def)
  next
    case False
    then have ne: "rs \<noteq> []" using len by auto
    have lt: "k - 1 < k" using False by simp
    have l: "last rs = rs ! (k - 1)" using ne len by (simp add: last_conv_nth)
    have "sr_output (rs ! (k - 1)) \<noteq> []"
      using records_of_output_not_empty [OF mr, of "k - 1" e inp] lt by (simp add: k_def rs_def)
    then show ?thesis
      using False fin stepout [OF lt] ne l by (simp add: last_output_def)
  qed
  have scenario: "map em_channel (emissions e s st0 fr) = [''step1'', ''final''] \<and>
            field (em_heap (emissions e s st0 fr ! 0)) (em_frame (emissions e s st0 fr ! 0))
              ''chain_output'' = Some (PStr ''[Step 1 output - requires LLM element]'') \<and>
            field (end_store e s st0 fr) (em_frame (last (emissions e s st0 fr)))
              ''chain_final_output'' = Some (PStr ''[Step 1 output - requires LLM element]'')"
    if a: "num_steps s = 1" "configured s 1" "model_value s 1 = Inr (Some ''local'')"
  proof -
    have "\<forall>j. 1 \<le> j \<and> j \<le> (1::nat) \<longrightarrow> configured s j"
    proof (intro allI impI)
      fix j :: nat
      assume "1 \<le> j \<and> j \<le> 1"
      then have "j = 1" by simp
      with a(2) show "configured s j" by simp
    qed
    moreover have "int 1 \<le> num_steps s" using a(1) by simp
    ultimately have "1 \<le> completed_steps s" by (rule completed_steps_ge)
    moreover have "completed_steps s \<le> 1" using completed_steps_le [of s] a(1) by simp
    ultimately have k1: "k = 1" by (simp add: k_def)
    have "sr_model (rs ! 0) = Some ''local''"
      using records_of_sound(1) [OF mr, of 0 e inp] k1 a(3) by (simp add: k_def rs_def)
    then have out: "sr_output (rs ! 0) = ''[Step 1 output - requires LLM element]''"
      using records_of_sound(2) [OF mr, of 0 e inp] k1
      by (simp add: k_def rs_def local_output str_nat_lit)
    have "map em_channel (emissions e s st0 fr) = [''step1'', ''final'']"
      using run_channels [OF v] k1 by (simp add: k_def upt_steps str_nat_lit)
    moreover have "field (em_heap (emissions e s st0 fr ! 0)) (em_frame (emissions e s st0 fr ! 0))
              ''chain_output'' = Some (PStr ''[Step 1 output - requires LLM element]'')"
      using stepout' [of 0] k1 out by simp
    moreover have "field (end_store e s st0 fr) (em_frame (last (emissions e s st0 fr)))
              ''chain_final_output'' = Some (PStr ''[Step 1 output - requires LLM element]'')"
      using main stepout [of 0] k1 out by simp
    ultimately show ?thesis by blast
  qed
  show ?thesis using main scenario by (simp add: k_def)
qed

theorem final_output_is_last_step_output_witness:
  "extract_input_text ex_env ex_store ex_frame = Inr ''Hello'' \<and> py_strip ''Hello'' \<noteq> [] \<and>
   raised ex_env (ex_settings\<lparr>num_steps := 1\<rparr>) ex_store ex_frame = None \<and>
   num_steps (ex_settings\<lparr>num_steps := 1\<rparr>) = 1 \<and> configured (ex_settings\<lparr>num_steps := 1\<rparr>) 1 \<and>
   model_value (ex_settings\<lparr>num_steps := 1\<rparr>) 1 = Inr (Some ''local'') \<and>
   map em_channel (emissions ex_env (ex_settings\<lparr>num_steps := 1\<rparr>) ex_store ex_frame)
     = [''step1'', ''final''] \<and>
   field (end_store ex_env (ex_settings\<lparr>num_steps := 1\<rparr>) ex_store ex_frame)
     (em_frame (last (emissions ex_env (ex_settings\<lparr>num_steps := 1\<rparr>) ex_store ex_frame)))
     ''chain_final_output'' = Some (PStr ''[Step 1 output - requires LLM element]'')"
proof -
  have r: "raised ex_env (ex_settings\<lparr>num_steps := 1\<rparr>) ex_store ex_frame = None"
    by (simp add: raised_None_readable [OF ex_input ex_input_not_blank] ex_settings_a_facts(4))
  note t = final_output_is_last_step_output [OF ex_input ex_input_not_blank r]
  have "map em_channel (emissions ex_env (ex_settings\<lparr>num_steps := 1\<rparr>) ex_store ex_frame)
     = [''step1'', ''final''] \<and>
   field (end_store ex_env (ex_settings\<lparr>num_steps := 1\<rparr>) ex_store ex_frame)
     (em_frame (last (emissions ex_env (ex_settings\<lparr>num_steps := 1\<rparr>) ex_store ex_frame)))
     ''chain_final_output'' = Some (PStr ''[Step 1 output - requires LLM element]'')"
    using t [THEN conjunct2] ex_settings_a_facts(1-3) by blast
  then show ?thesis
    using ex_input ex_input_not_blank r ex_settings_a_facts(1-3) by blast
qed

text \<open>
  Claim C9, as amended. For every emitted frame (step frames and the terminal frame), the
  side-channel mapping extends that of the input frame: every original key is present,
  the keys outside the frame's overlay keys keep their original values, and the overlay
  keys are present. The set of keys is strictly larger than the input's exactly when one
  of the overlay keys is not already a key of the input. The claim as stated, a strict
  superset for every execution, fails for an input frame that already carries the four
  overlay keys of the terminal frame: the terminal frame then has the keys of the input
  and no other.
\<close>

theorem emitted_frames_extend_input_data:
  assumes "extract_input_text e st0 fr = Inr inp" and "py_strip inp \<noteq> []"
    and "em \<in> set (emissions e s st0 fr)"
  shows "(\<forall>k. field st0 fr k \<noteq> None \<longrightarrow> field (em_heap em) (em_frame em) k \<noteq> None) \<and>
         (\<forall>k. k \<notin> set (overlay_keys (em_channel em)) \<longrightarrow>
               field (em_heap em) (em_frame em) k = field st0 fr k) \<and>
         (\<forall>k \<in> set (overlay_keys (em_channel em)). field (em_heap em) (em_frame em) k \<noteq> None) \<and>
         (dom (field st0 fr) \<subset> dom (field (em_heap em) (em_frame em))) =
           (\<exists>k \<in> set (overlay_keys (em_channel em)). field st0 fr k = None)"
proof -
  note f = emitted_frame_fields [OF assms]
  have sub: "dom (field st0 fr) \<subseteq> dom (field (em_heap em) (em_frame em))"
    using f by (auto simp: dom_def)
  have "(dom (field st0 fr) \<subset> dom (field (em_heap em) (em_frame em))) =
           (\<exists>k \<in> set (overlay_keys (em_channel em)). field st0 fr k = None)"
  proof
    assume "dom (field st0 fr) \<subset> dom (field (em_heap em) (em_frame em))"
    then obtain k where k: "field (em_heap em) (em_frame em) k \<noteq> None" "field st0 fr k = None"
      by (auto simp: dom_def)
    then have "k \<in> set (overlay_keys (em_channel em))" using f by metis
    with k show "\<exists>k \<in> set (overlay_keys (em_channel em)). field st0 fr k = None" by blast
  next
    assume "\<exists>k \<in> set (overlay_keys (em_channel em)). field st0 fr k = None"
    then obtain k where k: "k \<in> set (overlay_keys (em_channel em))" "field st0 fr k = None"
      by blast
    then have "field (em_heap em) (em_frame em) k \<noteq> None" using f by blast
    with k(2) have "k \<in> dom (field (em_heap em) (em_frame em))" "k \<notin> dom (field st0 fr)"
      by (auto simp: dom_def)
    with sub show "dom (field st0 fr) \<subset> dom (field (em_heap em) (em_frame em))" by blast
  qed
  with f show ?thesis by blast
qed

theorem emitted_frames_extend_input_data_witness:
  "extract_input_text ex_env ex_store ex_frame = Inr ''Hello'' \<and> py_strip ''Hello'' \<noteq> [] \<and>
   last (emissions ex_env ex_settings ex_store ex_frame)
     \<in> set (emissions ex_env ex_settings ex_store ex_frame) \<and>
   field ex_store ex_frame ''source'' = Some (PStr ''cam0'') \<and>
   field (em_heap (last (emissions ex_env ex_settings ex_store ex_frame)))
     (em_frame (last (emissions ex_env ex_settings ex_store ex_frame))) ''source''
     = Some (PStr ''cam0'')"
proof -
  have ch: "em_channel (last (emissions ex_env ex_settings ex_store ex_frame)) = ''final''"
    by (rule run_final_emission(2) [OF ex_input ex_input_not_blank ex_readable])
  have src: "field ex_store ex_frame ''source'' = Some (PStr ''cam0'')" by code_simp
  have "''source'' \<notin> set (overlay_keys ''final'')" by (simp add: overlay_keys_def)
  then show ?thesis
    using emitted_frames_extend_input_data [OF ex_input ex_input_not_blank ex_final_emission]
      ex_input ex_input_not_blank ex_final_emission ch src
    by metis
qed

theorem final_frame_keys_not_strict_superset:
  "dom (field (end_store ex_env ex_settings chained_store ex_frame)
          (em_frame (last (emissions ex_env ex_settings chained_store ex_frame))))
     = dom (field chained_store ex_frame)"
proof -
  have d: "other_data_of chained_store ex_frame =
     [(''message'', PStr ''Hello''), (''chain_final_output'', PStr ''earlier''),
             (''chain_steps'', PInt 1), (''chain_history'', PList []),
             (''chain_complete'', PBool True)]"
    by code_simp
  have keys: "dom (map_of (other_data_of chained_store ex_frame)) =
     {''message'', ''chain_final_output'', ''chain_steps'', ''chain_history'', ''chain_complete''}"
    unfolding d dom_map_of_conv_image_fst by simp
  have a: "dom (field (end_store ex_env ex_settings chained_store ex_frame)
          (em_frame (last (emissions ex_env ex_settings chained_store ex_frame))))
     = insert ''chain_complete'' (insert ''chain_history'' (insert ''chain_steps''
         (insert ''chain_final_output'' (dom (map_of (other_data_of chained_store ex_frame))))))"
    unfolding run_final_field [OF chained_input ex_input_not_blank ex_readable] map_of_final_dict
    by simp
  have b: "dom (field chained_store ex_frame) = dom (map_of (other_data_of chained_store ex_frame))"
    by (simp add: field_def [abs_def])
  show ?thesis unfolding a b keys by auto
qed

text \<open>
  Claim C10. When the model, key or temperature setting of step \<open>i\<close> is absent from the
  settings object, the step's configuration takes the default: model \<open>local\<close>, empty key,
  temperature \<open>0.7\<close>. The class declares no key and no temperature for the steps 4 and 5,
  so these always run with the empty key and \<open>0.7\<close>. In a run on valid input whose
  models can be read, a step whose prompt is configured, as are those before it, still
  executes: its frame is emitted on its channel with the resolved model, and its output
  is that of the step run with the resolved model, key and temperature.
\<close>

theorem missing_step_settings_fall_back:
  assumes "extract_input_text e st0 fr = Inr inp" and "py_strip inp \<noteq> []"
    and "models_readable s"
  shows "(getattr_text s (''step'' @ str_nat i @ ''_model'') = None \<longrightarrow>
            model_value s i = Inr (Some ''local'')) \<and>
         (getattr_text s (''step'' @ str_nat i @ ''_api_key'') = None \<longrightarrow>
            api_key s i = Some []) \<and>
         (getattr_float s (''step'' @ str_nat i @ ''_temperature'') = None \<longrightarrow>
            temperature s i = 7 / 10) \<and>
         getattr_text s ''step4_api_key'' = None \<and> getattr_float s ''step4_temperature'' = None \<and>
         getattr_text s ''step5_api_key'' = None \<and> getattr_float s ''step5_temperature'' = None \<and>
         api_key s 4 = Some [] \<and> temperature s 4 = 7 / 10 \<and>
         api_key s 5 = Some [] \<and> temperature s 5 = 7 / 10 \<and>
         (1 \<le> i \<and> int i \<le> num_steps s \<and> (\<forall>j. 1 \<le> j \<and> j \<le> i \<longrightarrow> configured s j) \<longrightarrow>
            i - 1 < completed_steps s \<and>
            em_channel (emissions e s st0 fr ! (i - 1)) = ''step'' @ str_nat i \<and>
            (\<exists>mv p out.
               model_value s i = Inr mv \<and>
               field (em_heap (emissions e s st0 fr ! (i - 1)))
                 (em_frame (emissions e s st0 fr ! (i - 1))) ''chain_model''
                 = Some (model_val mv) \<and>
               field (em_heap (emissions e s st0 fr ! (i - 1)))
                 (em_frame (emissions e s st0 fr ! (i - 1))) ''chain_prompt'' = Some (PStr p) \<and>
               field (em_heap (emissions e s st0 fr ! (i - 1)))
                 (em_frame (emissions e s st0 fr ! (i - 1))) ''chain_output'' = Some (PStr out) \<and>
               step_output e i p mv (api_key s i) (temperature s i) = Inr out))"
proof -
  have 1: "getattr_text s (''step'' @ str_nat i @ ''_model'') = None \<longrightarrow>
            model_value s i = Inr (Some ''local'')"
    by (simp add: model_value_def)
  have 2: "getattr_text s (''step'' @ str_nat i @ ''_api_key'') = None \<longrightarrow>
            api_key s i = Some []"
    by (simp add: api_key_def)
  have 3: "getattr_float s (''step'' @ str_nat i @ ''_temperature'') = None \<longrightarrow>
            temperature s i = 7 / 10"
    by (simp add: temperature_def)
  show ?thesis
    using 1 2 3 absent_settings(1-4) [of s] defaults_4_5 [of s]
      run_step_executes [OF assms, of i]
    by blast
qed

theorem missing_step_settings_fall_back_witness:
  "extract_input_text ex_env ex_store ex_frame = Inr ''Hello'' \<and> py_strip ''Hello'' \<noteq> [] \<and>
   getattr_text ex_settings_e (''step'' @ str_nat 4 @ ''_api_key'') = None \<and>
   api_key ex_settings_e 4 = Some [] \<and>
   getattr_float ex_settings_e (''step'' @ str_nat 4 @ ''_temperature'') = None \<and>
   temperature ex_settings_e 4 = 7 / 10 \<and>
   models_readable ex_settings_e \<and>
   (1::nat) \<le> 4 \<and> int 4 \<le> num_steps ex_settings_e \<and>
   configured ex_settings_e 1 \<and> configured ex_settings_e 2 \<and>
   configured ex_settings_e 3 \<and> configured ex_settings_e 4 \<and>
   em_channel (emissions ex_env ex_settings_e ex_store ex_frame ! 3) = ''step4'' \<and>
   field (em_heap (emissions ex_env ex_settings_e ex_store ex_frame ! 3))
     (em_frame (emissions ex_env ex_settings_e ex_store ex_frame ! 3)) ''chain_model''
     = Some (PStr ''anthropic'')"
proof -
  have k1: "getattr_text ex_settings_e (''step'' @ str_nat 4 @ ''_api_key'') = None"
    by (simp add: str_nat_lit absent_settings)
  have k2: "getattr_float ex_settings_e (''step'' @ str_nat 4 @ ''_temperature'') = None"
    by (simp add: str_nat_lit absent_settings)
  have h3: "(1::nat) \<le> 4" by simp
  have h5: "\<forall>j. 1 \<le> j \<and> j \<le> 4 \<longrightarrow> configured ex_settings_e j"
  proof (intro allI impI)
    fix j :: nat
    assume "1 \<le> j \<and> j \<le> 4"
    then have "j = 1 \<or> j = 2 \<or> j = 3 \<or> j = 4" by auto
    then show "configured ex_settings_e j" using ex_settings_e_facts(2-5) by auto
  qed
  note t = missing_step_settings_fall_back [OF ex_input ex_input_not_blank
             ex_settings_e_facts(7), where i = 4]
  have a: "api_key ex_settings_e 4 = Some []" using t k1 by blast
  have b: "temperature ex_settings_e 4 = 7 / 10" using t k2 by blast
  have c: "em_channel (emissions ex_env ex_settings_e ex_store ex_frame ! (4 - 1))
             = ''step'' @ str_nat 4"
    and d: "\<exists>mv. model_value ex_settings_e 4 = Inr mv \<and>
     field (em_heap (emissions ex_env ex_settings_e ex_store ex_frame ! (4 - 1)))
     (em_frame (emissions ex_env ex_settings_e ex_store ex_frame ! (4 - 1))) ''chain_model''
     = Some (model_val mv)"
    using t h3 ex_settings_e_facts(1) h5 by blast+
  have c': "em_channel (emissions ex_env ex_settings_e ex_store ex_frame ! 3) = ''step4''"
    using c by (simp add: str_nat_lit)
  have d': "field (em_heap (emissions ex_env ex_settings_e ex_store ex_frame ! 3))
     (em_frame (emissions ex_env ex_settings_e ex_store ex_frame ! 3)) ''chain_model''
     = Some (PStr ''anthropic'')"
    using d by (simp add: ex_settings_e_facts(6) model_val_def)
  show ?thesis
    using ex_input ex_input_not_blank k1 k2 a b h3 ex_settings_e_facts(1-5,7) c' d' by blast
qed

end
